theory Spec2Isabelle
  imports Complex_Main
begin

section \<open>Strings and numbers as the TypeScript sources use them\<close>

text \<open>
  A string is kept as the bytes of its UTF-8 encoding: an ASCII character is one \<open>char\<close>
  below 128, every other character is a run of two to four \<open>char\<close>s from 128 on. Equality,
  \<^verbatim>\<open>startsWith\<close> and \<^verbatim>\<open>includes\<close> are the same on the bytes as on the characters.

  Decimal rendering of a non-negative integer, as a template literal renders a counter
  (\<^verbatim>\<open>`proc-${this.nextId++}`\<close>), and the decimal reading \<^verbatim>\<open>parseInt(s, 10)\<close> performs on
  a run of ASCII digits.
\<close>

definition digit_char :: "nat \<Rightarrow> char" where
  "digit_char d = ''0123456789'' ! (d mod 10)"

fun string_of_nat :: "nat \<Rightarrow> string" where
  "string_of_nat n =
     (if n < 10 then [digit_char n] else string_of_nat (n div 10) @ [digit_char (n mod 10)])"

declare string_of_nat.simps [simp del]

definition is_digit :: "char \<Rightarrow> bool" where
  "is_digit c = (c \<in> set ''0123456789'')"

definition digit_val :: "char \<Rightarrow> nat" where
  "digit_val c = (case map_of (zip ''0123456789'' [0, 1, 2, 3, 4, 5, 6, 7, 8, 9]) c of
                    Some d \<Rightarrow> d | None \<Rightarrow> 0)"

definition parseInt :: "string \<Rightarrow> nat" where
  "parseInt ds = foldl (\<lambda>n c. 10 * n + digit_val c) 0 ds"

text \<open>
  The lower case of an ASCII letter. A regular expression with the flag \<^verbatim>\<open>i\<close> and without
  the flag \<^verbatim>\<open>u\<close> compares an ASCII letter of the pattern through it: no character
  outside ASCII folds to an ASCII one there.
\<close>

definition to_lower :: "char \<Rightarrow> char" where
  "to_lower c = (case map_of (zip ''ABCDEFGHIJKLMNOPQRSTUVWXYZ'' ''abcdefghijklmnopqrstuvwxyz'') c of
                   Some l \<Rightarrow> l | None \<Rightarrow> c)"

text \<open>
  \<^verbatim>\<open>s.toLowerCase()\<close> as far as a search for an ASCII text can see it. ASCII capitals are
  lowered; the Kelvin sign U+212A becomes \<^verbatim>\<open>k\<close>; U+0130 becomes \<^verbatim>\<open>i\<close> followed by U+0307.
  Every other character outside ASCII lowers to characters outside ASCII and is left as
  it is here.
\<close>

definition kelvin_sign :: string where
  "kelvin_sign = [CHR 0xE2, CHR 0x84, CHR 0xAA]"

definition capital_i_dot :: string where
  "capital_i_dot = [CHR 0xC4, CHR 0xB0]"

definition small_i_dot :: string where
  "small_i_dot = [CHR ''i'', CHR 0xCC, CHR 0x87]"

fun toLowerCase :: "string \<Rightarrow> string" where
  "toLowerCase (a # b # c # cs) =
     (if [a, b, c] = kelvin_sign then CHR ''k'' # toLowerCase cs
      else if [a, b] = capital_i_dot then small_i_dot @ toLowerCase (c # cs)
      else to_lower a # toLowerCase (b # c # cs))"
| "toLowerCase [a, b] =
     (if [a, b] = capital_i_dot then small_i_dot else [to_lower a, to_lower b])"
| "toLowerCase [a] = [to_lower a]"
| "toLowerCase [] = []"

text \<open>
  \<^verbatim>\<open>s.length\<close>, the number of UTF-16 code units: one for each character, and one more
  for each character beyond U+FFFF (four bytes, the first from 240 on). A byte from 128
  to 191 continues a character.
\<close>

definition utf16_length :: "string \<Rightarrow> nat" where
  "utf16_length s =
     length (filter (\<lambda>c. \<not> (128 \<le> (of_char c :: nat) \<and> (of_char c :: nat) < 192)) s) +
     length (filter (\<lambda>c. 240 \<le> (of_char c :: nat)) s)"

text \<open>\<^verbatim>\<open>s.startsWith(p)\<close> and \<^verbatim>\<open>s.includes(p)\<close> on strings.\<close>

fun starts_with :: "string \<Rightarrow> string \<Rightarrow> bool" where
  "starts_with s [] = True"
| "starts_with [] (p # ps) = False"
| "starts_with (c # cs) (p # ps) = (c = p \<and> starts_with cs ps)"

fun includes_str :: "string \<Rightarrow> string \<Rightarrow> bool" where
  "includes_str [] p = (p = [])"
| "includes_str (c # cs) p = (starts_with (c # cs) p \<or> includes_str cs p)"

section \<open>A JavaScript \<^verbatim>\<open>Map\<close>: insertion-ordered, keys unique\<close>

fun map_set :: "'k \<Rightarrow> 'v \<Rightarrow> ('k \<times> 'v) list \<Rightarrow> ('k \<times> 'v) list" where
  "map_set k v [] = [(k, v)]"
| "map_set k v ((k', v') # kvs) =
     (if k' = k then (k, v) # kvs else (k', v') # map_set k v kvs)"

definition map_get :: "('k \<times> 'v) list \<Rightarrow> 'k \<Rightarrow> 'v option" where
  "map_get m k = map_of m k"

definition map_delete :: "'k \<Rightarrow> ('k \<times> 'v) list \<Rightarrow> ('k \<times> 'v) list" where
  "map_delete k m = filter (\<lambda>kv. fst kv \<noteq> k) m"

section \<open>The process registry (\<^verbatim>\<open>service/processManager.ts\<close>)\<close>

text \<open>
  A \<^verbatim>\<open>ProcessInfo\<close> is a heap object: the registry's \<^verbatim>\<open>Map\<close> and the array \<^verbatim>\<open>getAll()\<close>
  returns hold references to the same objects. The heap is a list of objects, a reference
  is an index into it, and a new object takes the next free index. A
  \<^verbatim>\<open>WebContainerProcess\<close> is an opaque handle of the sandbox runtime.
\<close>

type_synonym proc_handle = nat
type_synonym obj_ref = nat
type_synonym listener = nat

record ProcessInfo =
  info_id :: string
  process :: proc_handle
  command :: string
  port :: "int option"
  startedAt :: nat

datatype registry_event =
    KillCalled proc_handle
  | Notified listener "(string \<times> obj_ref) list"

record ProcessManager =
  heap :: "ProcessInfo list"
  processes :: "(string \<times> obj_ref) list"
  listeners :: "listener list"
  nextId :: nat
  events :: "registry_event list"

definition new_ProcessManager :: ProcessManager where
  "new_ProcessManager =
     \<lparr>heap = [], processes = [], listeners = [], nextId = 1, events = []\<rparr>"

text \<open>
  \<^verbatim>\<open>notify()\<close> calls every listener, in subscription order, with a copy of the table
  (\<^verbatim>\<open>new Map(this.processes)\<close>: the same references). Listeners are observers: the one
  subscriber of the repository stores the table's size.
\<close>

definition notify :: "ProcessManager \<Rightarrow> ProcessManager" where
  "notify s = s\<lparr>events := events s @ map (\<lambda>l. Notified l (processes s)) (listeners s)\<rparr>"

text \<open>
  \<^verbatim>\<open>info.process.kill()\<close> is a call into the sandbox runtime that may throw (the process
  may already be dead); \<open>throws\<close> says for which handles it does. The call is recorded
  either way.
\<close>

datatype js_error = TypeError | SyntaxError | RuntimeError string

definition process_kill ::
  "(proc_handle \<Rightarrow> bool) \<Rightarrow> proc_handle \<Rightarrow> ProcessManager \<Rightarrow> (js_error + unit) \<times> ProcessManager" where
  "process_kill throws p s =
     (if throws p then Inl (RuntimeError ''kill failed'') else Inr (),
      s\<lparr>events := events s @ [KillCalled p]\<rparr>)"

text \<open>\<^verbatim>\<open>try { info.process.kill(); } catch { }\<close>: both outcomes continue with the same state.\<close>

definition try_kill :: "(proc_handle \<Rightarrow> bool) \<Rightarrow> proc_handle \<Rightarrow> ProcessManager \<Rightarrow> ProcessManager" where
  "try_kill throws p s =
     (case process_kill throws p s of (Inl e, s') \<Rightarrow> s' | (Inr u, s') \<Rightarrow> s')"

definition register ::
  "nat \<Rightarrow> proc_handle \<Rightarrow> string \<Rightarrow> int option \<Rightarrow> ProcessManager \<Rightarrow> string \<times> ProcessManager" where
  "register now p cmd prt s =
     (let ident = ''proc-'' @ string_of_nat (nextId s);
          r = length (heap s);
          obj = \<lparr>info_id = ident, process = p, command = cmd, port = prt, startedAt = now\<rparr>
      in (ident, notify (s\<lparr>nextId := nextId s + 1,
                           heap := heap s @ [obj],
                           processes := map_set ident r (processes s)\<rparr>)))"

definition kill :: "(proc_handle \<Rightarrow> bool) \<Rightarrow> string \<Rightarrow> ProcessManager \<Rightarrow> bool \<times> ProcessManager" where
  "kill throws ident s =
     (case map_get (processes s) ident of
        None \<Rightarrow> (False, s)
      | Some r \<Rightarrow>
          (let s1 = try_kill throws (process (heap s ! r)) s;
               s2 = s1\<lparr>processes := map_delete ident (processes s1)\<rparr>
           in (True, notify s2)))"

text \<open>
  \<^verbatim>\<open>for (const [id, info] of this.processes)\<close>: deleting the entry being visited leaves the
  iteration over the remaining entries as it was, so the loop runs over the entries
  present at its start.
\<close>

fun killByPort_loop ::
  "(proc_handle \<Rightarrow> bool) \<Rightarrow> int \<Rightarrow> (string \<times> obj_ref) list \<Rightarrow> bool \<times> ProcessManager
     \<Rightarrow> bool \<times> ProcessManager" where
  "killByPort_loop throws prt [] (killed, s) = (killed, s)"
| "killByPort_loop throws prt ((ident, r) # rest) (killed, s) =
     (if port (heap s ! r) = Some prt
      then (let s1 = try_kill throws (process (heap s ! r)) s;
                s2 = s1\<lparr>processes := map_delete ident (processes s1)\<rparr>
            in killByPort_loop throws prt rest (True, s2))
      else killByPort_loop throws prt rest (killed, s))"

definition killByPort :: "(proc_handle \<Rightarrow> bool) \<Rightarrow> int \<Rightarrow> ProcessManager \<Rightarrow> bool \<times> ProcessManager" where
  "killByPort throws prt s =
     (case killByPort_loop throws prt (processes s) (False, s) of
        (killed, s') \<Rightarrow> (killed, if killed then notify s' else s'))"

fun killAll_loop :: "(proc_handle \<Rightarrow> bool) \<Rightarrow> (string \<times> obj_ref) list \<Rightarrow> ProcessManager \<Rightarrow> ProcessManager" where
  "killAll_loop throws [] s = s"
| "killAll_loop throws ((ident, r) # rest) s =
     killAll_loop throws rest (try_kill throws (process (heap s ! r)) s)"

definition killAll :: "(proc_handle \<Rightarrow> bool) \<Rightarrow> ProcessManager \<Rightarrow> ProcessManager" where
  "killAll throws s =
     notify ((killAll_loop throws (processes s) s)\<lparr>processes := []\<rparr>)"

definition unregister :: "string \<Rightarrow> ProcessManager \<Rightarrow> ProcessManager" where
  "unregister ident s = notify (s\<lparr>processes := map_delete ident (processes s)\<rparr>)"

definition getAll :: "ProcessManager \<Rightarrow> obj_ref list" where
  "getAll s = map snd (processes s)"

definition count :: "ProcessManager \<Rightarrow> nat" where
  "count s = length (processes s)"

definition subscribe :: "listener \<Rightarrow> ProcessManager \<Rightarrow> ProcessManager" where
  "subscribe l s = (if l \<in> set (listeners s) then s else s\<lparr>listeners := listeners s @ [l]\<rparr>)"

definition unsubscribe :: "listener \<Rightarrow> ProcessManager \<Rightarrow> ProcessManager" where
  "unsubscribe l s = s\<lparr>listeners := filter (\<lambda>x. x \<noteq> l) (listeners s)\<rparr>"

text \<open>The ids \<^verbatim>\<open>getAll()\<close> shows: the \<^verbatim>\<open>id\<close> field of every object in the table.\<close>

definition tracked_ids :: "ProcessManager \<Rightarrow> string list" where
  "tracked_ids s = map (\<lambda>r. info_id (heap s ! r)) (getAll s)"

text \<open>
  The registry's representation invariant: every reference in the table points into the
  heap, at an object whose \<^verbatim>\<open>id\<close> field is its key, and no key is repeated.
\<close>

definition wf_registry :: "ProcessManager \<Rightarrow> bool" where
  "wf_registry s =
     (distinct (map fst (processes s)) \<and>
      list_all (\<lambda>kr. snd kr < length (heap s) \<and> info_id (heap s ! snd kr) = fst kr) (processes s))"

text \<open>The registry after a sequence of calls of its methods, from the fresh singleton on.\<close>

datatype registry_op =
    Register nat proc_handle string "int option"
  | Kill string
  | KillByPort int
  | KillAll
  | Unregister string
  | Subscribe listener
  | Unsubscribe listener

fun apply_registry_op :: "(proc_handle \<Rightarrow> bool) \<Rightarrow> registry_op \<Rightarrow> ProcessManager \<Rightarrow> ProcessManager" where
  "apply_registry_op throws (Register now p cmd prt) s = snd (register now p cmd prt s)"
| "apply_registry_op throws (Kill ident) s = snd (kill throws ident s)"
| "apply_registry_op throws (KillByPort prt) s = snd (killByPort throws prt s)"
| "apply_registry_op throws KillAll s = killAll throws s"
| "apply_registry_op throws (Unregister ident) s = unregister ident s"
| "apply_registry_op throws (Subscribe l) s = subscribe l s"
| "apply_registry_op throws (Unsubscribe l) s = unsubscribe l s"

definition registry_after :: "(proc_handle \<Rightarrow> bool) \<Rightarrow> registry_op list \<Rightarrow> ProcessManager" where
  "registry_after throws ops = fold (apply_registry_op throws) ops new_ProcessManager"

section \<open>Port detection in the dev server's output (\<^verbatim>\<open>webcontainer-preveiw.tsx\<close>)\<close>

text \<open>
  \<^verbatim>\<open>data.match(/(?:port|localhost:|127\.0\.0\.1:|:::)(\d{4,5})/i)\<close>: the leftmost position at
  which one of the four prefixes, letters compared without case, is followed by at least
  four ASCII digits. The alternatives are tried in the order written; the group takes five
  digits when there are five, else four. The result is the captured group, or \<open>None\<close> for
  \<^verbatim>\<open>null\<close>.
\<close>

definition port_prefixes :: "string list" where
  "port_prefixes = [''port'', ''localhost:'', ''127.0.0.1:'', '':::'']"

fun strip_prefix_ci :: "string \<Rightarrow> string \<Rightarrow> string option" where
  "strip_prefix_ci [] s = Some s"
| "strip_prefix_ci (p # ps) [] = None"
| "strip_prefix_ci (p # ps) (c # cs) =
     (if to_lower c = to_lower p then strip_prefix_ci ps cs else None)"

definition capture_digits :: "string \<Rightarrow> string option" where
  "capture_digits s =
     (let ds = takeWhile is_digit s in if 4 \<le> length ds then Some (take 5 ds) else None)"

fun first_alternative :: "string list \<Rightarrow> string \<Rightarrow> string option" where
  "first_alternative [] s = None"
| "first_alternative (p # ps) s =
     (case strip_prefix_ci p s of
        None \<Rightarrow> first_alternative ps s
      | Some rest \<Rightarrow>
          (case capture_digits rest of
             None \<Rightarrow> first_alternative ps s
           | Some ds \<Rightarrow> Some ds))"

fun port_match :: "string \<Rightarrow> string option" where
  "port_match [] = None"
| "port_match (c # cs) =
     (case first_alternative port_prefixes (c # cs) of
        None \<Rightarrow> port_match cs
      | Some ds \<Rightarrow> Some ds)"

declare port_match.simps [simp del]

text \<open>\<^verbatim>\<open>!info.port\<close>: the port is falsy when it is \<^verbatim>\<open>undefined\<close> or the number 0.\<close>

definition falsy_port :: "int option \<Rightarrow> bool" where
  "falsy_port p = (case p of None \<Rightarrow> True | Some n \<Rightarrow> n = 0)"

text \<open>
  The part of the output handler that touches the registry:
  \<^verbatim>\<open>const info = processManager.getAll().find(p => p.id === procId);
  if (info && !info.port) { info.port = port; }\<close>.
  The assignment writes through the reference \<^verbatim>\<open>getAll()\<close> returned, into the object the
  table holds.
\<close>

definition detect_port :: "string \<Rightarrow> string \<Rightarrow> ProcessManager \<Rightarrow> ProcessManager" where
  "detect_port procId data s =
     (case port_match data of
        None \<Rightarrow> s
      | Some ds \<Rightarrow>
          (let prt = int (parseInt ds) in
           case List.find (\<lambda>r. info_id (heap s ! r) = procId) (getAll s) of
             None \<Rightarrow> s
           | Some r \<Rightarrow>
               if falsy_port (port (heap s ! r))
               then s\<lparr>heap := (heap s)[r := (heap s ! r)\<lparr>port := Some prt\<rparr>]\<rparr>
               else s))"

section \<open>The project analyzer (\<^verbatim>\<open>analyzeProject\<close> and its helpers)\<close>

subsection \<open>JavaScript values read from the manifest\<close>

text \<open>
  A value \<^verbatim>\<open>JSON.parse\<close> returns. An object carries its members as the text declares them,
  in order; a number carries the value of the double it was read as.
\<close>

datatype json =
    JNull
  | JBool bool
  | JNum rat
  | JStr string
  | JArr "json list"
  | JObj "(string \<times> json) list"

text \<open>
  The object \<^verbatim>\<open>JSON.parse\<close> builds from the members: each member defines the property of
  its name, so a repeated name keeps its first place and takes the later value.
\<close>

definition js_object :: "(string \<times> json) list \<Rightarrow> (string \<times> json) list" where
  "js_object members = foldl (\<lambda>m kv. map_set (fst kv) (snd kv) m) [] members"

fun truthy :: "json \<Rightarrow> bool" where
  "truthy JNull = False"
| "truthy (JBool b) = b"
| "truthy (JNum n) = (n \<noteq> 0)"
| "truthy (JStr s) = (s \<noteq> [])"
| "truthy (JArr xs) = True"
| "truthy (JObj ms) = True"

definition truthy_opt :: "json option \<Rightarrow> bool" where
  "truthy_opt v = (case v of None \<Rightarrow> False | Some j \<Rightarrow> truthy j)"

text \<open>
  Reading a property: \<^verbatim>\<open>null.x\<close> throws a TypeError; an object gives its member or
  \<^verbatim>\<open>undefined\<close> (\<open>None\<close>). The names read here (\<^verbatim>\<open>scripts\<close>, \<^verbatim>\<open>dev\<close>, \<^verbatim>\<open>start\<close>,
  \<^verbatim>\<open>preview\<close>) are members of no primitive, array or prototype, so every other value
  gives \<^verbatim>\<open>undefined\<close>.
\<close>

fun get_prop :: "json \<Rightarrow> string \<Rightarrow> js_error + json option" where
  "get_prop JNull k = Inl TypeError"
| "get_prop (JObj ms) k = Inr (map_get (js_object ms) k)"
| "get_prop (JBool b) k = Inr None"
| "get_prop (JNum n) k = Inr None"
| "get_prop (JStr s) k = Inr None"
| "get_prop (JArr xs) k = Inr None"

text \<open>
  \<^verbatim>\<open>Object.keys\<close>: the names that are array indices (canonical decimal numerals below
  \<open>2\<^sup>3\<^sup>2 - 1\<close>) come first, in ascending numeric order, then the other names in the order
  of their creation. A string or an array has its indices as keys, a number or a boolean
  has none.
\<close>

definition is_array_index :: "string \<Rightarrow> bool" where
  "is_array_index k =
     (k \<noteq> [] \<and> list_all is_digit k \<and> (k = ''0'' \<or> hd k \<noteq> CHR ''0'') \<and>
      parseInt k < 4294967295)"

definition own_keys :: "(string \<times> json) list \<Rightarrow> string list" where
  "own_keys members =
     (let ks = map fst (js_object members)
      in sort_key parseInt (filter is_array_index ks) @ filter (\<lambda>k. \<not> is_array_index k) ks)"

fun Object_keys :: "json \<Rightarrow> js_error + string list" where
  "Object_keys JNull = Inl TypeError"
| "Object_keys (JBool b) = Inr []"
| "Object_keys (JNum n) = Inr []"
| "Object_keys (JStr s) = Inr (map string_of_nat [0..<utf16_length s])"
| "Object_keys (JArr xs) = Inr (map string_of_nat [0..<length xs])"
| "Object_keys (JObj ms) = Inr (own_keys ms)"

definition bind_err :: "js_error + 'a \<Rightarrow> ('a \<Rightarrow> js_error + 'b) \<Rightarrow> js_error + 'b" where
  "bind_err r f = (case r of Inl e \<Rightarrow> Inl e | Inr x \<Rightarrow> f x)"

subsection \<open>The sandbox file system as the analyzer sees it\<close>

text \<open>
  \<^verbatim>\<open>readdir('/')\<close> gives the root listing or rejects (\<open>None\<close>).
  \<^verbatim>\<open>JSON.parse(await readFile('package.json'))\<close> has three outcomes: the read rejects, the
  text is not valid JSON and \<^verbatim>\<open>JSON.parse\<close> throws a SyntaxError, or a value is returned.
\<close>

datatype manifest_read = ReadFails | ParseFails | Parsed json

record sandbox_fs =
  root_listing :: "string list option"
  manifest :: manifest_read

datatype project_type = Node | Static | Python | Docker | Unknown

datatype package_manager = Npm | Yarn | Pnpm | Bun

record ProjectAnalysis =
  analysis_type :: project_type
  installCommand :: "(string \<times> string list) option"
  preInstallCommands :: "(string \<times> string list) list"
  startCommand :: "(string \<times> string list) option"
  detectedFiles :: "string list"
  reason :: string
  packageManager :: "package_manager option"
  shouldRemoveLockfile :: bool

fun manager_name :: "package_manager \<Rightarrow> string" where
  "manager_name Npm = ''npm''"
| "manager_name Yarn = ''yarn''"
| "manager_name Pnpm = ''pnpm''"
| "manager_name Bun = ''bun''"

text \<open>The body of the inner \<^verbatim>\<open>try\<close>: the value \<^verbatim>\<open>startScript\<close> ends with, or the exception.\<close>

definition choose_start_script :: "json \<Rightarrow> js_error + string" where
  "choose_start_script pkg =
     bind_err (get_prop pkg ''scripts'') (\<lambda>scripts_opt.
       case scripts_opt of
         None \<Rightarrow> Inr ''dev''
       | Some scripts \<Rightarrow>
           if \<not> truthy scripts then Inr ''dev''
           else bind_err (get_prop scripts ''dev'') (\<lambda>d.
             if truthy_opt d then Inr ''dev''
             else bind_err (get_prop scripts ''start'') (\<lambda>st.
               if truthy_opt st then Inr ''start''
               else bind_err (get_prop scripts ''preview'') (\<lambda>pv.
                 if truthy_opt pv then Inr ''preview''
                 else bind_err (Object_keys scripts) (\<lambda>ks.
                   case ks of
                     [] \<Rightarrow> Inr ''dev''
                   | firstScript # rest \<Rightarrow>
                       if firstScript \<noteq> [] then Inr firstScript else Inr ''dev'')))))"

definition read_start_script :: "manifest_read \<Rightarrow> js_error + string" where
  "read_start_script m =
     (case m of
        ReadFails \<Rightarrow> Inl (RuntimeError ''readFile failed'')
      | ParseFails \<Rightarrow> Inl SyntaxError
      | Parsed pkg \<Rightarrow> choose_start_script pkg)"

text \<open>\<^verbatim>\<open>let startScript = 'dev'; try { ... } catch (e) { console.error(...) }\<close>.\<close>

definition start_script :: "manifest_read \<Rightarrow> string" where
  "start_script m = (case read_start_script m of Inl e \<Rightarrow> ''dev'' | Inr sc \<Rightarrow> sc)"

definition detectPackageManager :: "string list \<Rightarrow> package_manager option" where
  "detectPackageManager files =
     (if ''bun.lockb'' \<in> set files \<or> ''bun.lock'' \<in> set files then Some Bun
      else if ''pnpm-lock.yaml'' \<in> set files then Some Pnpm
      else if ''yarn.lock'' \<in> set files then Some Yarn
      else if ''package-lock.json'' \<in> set files then Some Npm
      else None)"

definition lockFiles :: "string list" where
  "lockFiles = [''package-lock.json'', ''yarn.lock'', ''pnpm-lock.yaml'', ''bun.lockb'', ''bun.lock'']"

definition getPackageManagerFiles :: "string list \<Rightarrow> string list" where
  "getPackageManagerFiles files = filter (\<lambda>f. f \<in> set lockFiles) files"

definition getInstallCommand :: "package_manager option \<Rightarrow> string \<times> string list" where
  "getInstallCommand pmgr =
     (case pmgr of
        Some Yarn \<Rightarrow> (''yarn'', [''install'', ''--non-interactive''])
      | Some Pnpm \<Rightarrow> (''pnpm'', [''install'', ''--no-frozen-lockfile''])
      | Some Bun \<Rightarrow> (''bun'', [''install''])
      | _ \<Rightarrow> (''npm'', [''install'', ''--yes'', ''--no-audit'', ''--no-fund'', ''--loglevel=warn'',
                        ''--legacy-peer-deps'', ''--prefer-offline'', ''--ignore-scripts'',
                        ''--progress=true'']))"

text \<open>\<^verbatim>\<open>packageManager || 'npm'\<close>.\<close>

definition or_npm :: "package_manager option \<Rightarrow> package_manager" where
  "or_npm pmgr = (case pmgr of None \<Rightarrow> Npm | Some m \<Rightarrow> m)"

definition no_commands :: "project_type \<Rightarrow> string list \<Rightarrow> string \<Rightarrow> ProjectAnalysis" where
  "no_commands t found why =
     \<lparr>analysis_type = t, installCommand = None, preInstallCommands = [], startCommand = None,
      detectedFiles = found, reason = why, packageManager = None, shouldRemoveLockfile = False\<rparr>"

text \<open>The body of the outer \<^verbatim>\<open>try\<close> of \<^verbatim>\<open>analyzeProject\<close>.\<close>

definition analyze_body :: "sandbox_fs \<Rightarrow> js_error + ProjectAnalysis" where
  "analyze_body fs =
     (case root_listing fs of
        None \<Rightarrow> Inl (RuntimeError ''readdir failed'')
      | Some files \<Rightarrow>
          if ''package.json'' \<in> set files then
            (let startScript = start_script (manifest fs);
                 pmgr = detectPackageManager files
             in Inr \<lparr>analysis_type = Node,
                     installCommand = Some (getInstallCommand pmgr),
                     preInstallCommands = [],
                     startCommand = Some (''npm'', [''run'', startScript]),
                     detectedFiles = ''package.json'' # getPackageManagerFiles files,
                     reason = ''Node.js project detected ('' @ manager_name (or_npm pmgr) @ '')'',
                     packageManager = Some (or_npm pmgr),
                     shouldRemoveLockfile = True\<rparr>)
          else if ''requirements.txt'' \<in> set files then
            Inr (no_commands Python [''requirements.txt'']
                   ''Python project detected via requirements.txt'')
          else
            (let dockerFiles = filter (\<lambda>f. includes_str (toLowerCase f) ''dockerfile'') files
             in case dockerFiles of
                  d # ds \<Rightarrow> Inr (no_commands Docker [d] ''Docker project detected via Dockerfile'')
                | [] \<Rightarrow>
                    if ''index.html'' \<in> set files then
                      Inr ((no_commands Static [''index.html'']
                              ''Static HTML project detected via index.html'')
                           \<lparr>startCommand := Some (''npx'', [''--yes'', ''serve''])\<rparr>)
                    else
                      Inr (no_commands Unknown [] ''Could not automatically detect project type'')))"

text \<open>The \<^verbatim>\<open>catch\<close> of the outer \<^verbatim>\<open>try\<close> turns every exception into a result.\<close>

definition analyzeProject :: "sandbox_fs \<Rightarrow> js_error + ProjectAnalysis" where
  "analyzeProject fs =
     (case analyze_body fs of
        Inl e \<Rightarrow> Inr (no_commands Unknown [] ''Error occurred while analyzing project files'')
      | Inr a \<Rightarrow> Inr a)"

subsection \<open>The analyzer's rules as the specification words them\<close>

text \<open>
  Package managers in the specification's order of priority, each with the lockfiles the
  analyzer recognises it by; the manager detected is the first in that order with a
  lockfile in the listing.
\<close>

definition spec_priority :: "package_manager list" where
  "spec_priority = [Bun, Pnpm, Yarn, Npm]"

fun lockfiles_of :: "package_manager \<Rightarrow> string list" where
  "lockfiles_of Bun = [''bun.lockb'', ''bun.lock'']"
| "lockfiles_of Pnpm = [''pnpm-lock.yaml'']"
| "lockfiles_of Yarn = [''yarn.lock'']"
| "lockfiles_of Npm = [''package-lock.json'']"

definition has_lockfile :: "string list \<Rightarrow> package_manager \<Rightarrow> bool" where
  "has_lockfile files m = list_ex (\<lambda>f. f \<in> set files) (lockfiles_of m)"

definition spec_detect :: "string list \<Rightarrow> package_manager option" where
  "spec_detect files = List.find (has_lockfile files) spec_priority"

text \<open>
  The start script by the specification's rule, from the script names in the order the
  manifest declares them: \<^verbatim>\<open>dev\<close>, else \<^verbatim>\<open>start\<close>, else \<^verbatim>\<open>preview\<close>, else the first
  declared script, else \<^verbatim>\<open>dev\<close>.
\<close>

definition spec_start_script :: "string list \<Rightarrow> string" where
  "spec_start_script names =
     (if ''dev'' \<in> set names then ''dev''
      else if ''start'' \<in> set names then ''start''
      else if ''preview'' \<in> set names then ''preview''
      else (case names of [] \<Rightarrow> ''dev'' | n # ns \<Rightarrow> n))"

definition declared_scripts :: "json \<Rightarrow> string list" where
  "declared_scripts pkg =
     (case get_prop pkg ''scripts'' of
        Inr (Some (JObj ss)) \<Rightarrow> map fst ss
      | _ \<Rightarrow> [])"

text \<open>A script the analyzer's truthiness and key-order tests cannot tell from a declared one.\<close>

definition plain_script :: "string \<times> json \<Rightarrow> bool" where
  "plain_script kv = (truthy (snd kv) \<and> fst kv \<noteq> [] \<and> \<not> is_array_index (fst kv))"

subsection \<open>Concrete sandboxes and manifests\<close>

definition kelvin_dockerfile :: string where
  "kelvin_dockerfile = ''DOC'' @ kelvin_sign @ ''ERFILE''"

definition invalid_manifest_fs :: sandbox_fs where
  "invalid_manifest_fs = \<lparr>root_listing = Some [''package.json''], manifest = ParseFails\<rparr>"

definition numbered_script_pkg :: json where
  "numbered_script_pkg =
     JObj [(''name'', JStr ''app''),
           (''scripts'', JObj [(''build'', JStr ''tsc''), (''1'', JStr ''echo one'')])]"

definition empty_dev_pkg :: json where
  "empty_dev_pkg =
     JObj [(''scripts'', JObj [(''dev'', JStr []), (''start'', JStr ''node server.js'')])]"

definition build_start_pkg :: json where
  "build_start_pkg =
     JObj [(''name'', JStr ''app''),
           (''scripts'', JObj [(''build'', JStr ''tsc''), (''start'', JStr ''node server.js'')])]"

definition lint_test_pkg :: json where
  "lint_test_pkg =
     JObj [(''scripts'', JObj [(''lint'', JStr ''eslint .''), (''test'', JStr ''jest'')])]"

section \<open>The bootstrap orchestrator (\<^verbatim>\<open>WebContainerPreview\<close>)\<close>

subsection \<open>State, terminal messages and actions\<close>

record LoadingState =
  transforming :: bool
  mounting :: bool
  analyzing :: bool
  installing :: bool
  starting :: bool
  ready :: bool

definition idle_loading :: LoadingState where
  "idle_loading =
     \<lparr>transforming = False, mounting = False, analyzing = False, installing = False,
      starting = False, ready = False\<rparr>"

text \<open>What \<^verbatim>\<open>writeToTerminal\<close> is called with, one constructor for each message text.\<close>

datatype term_msg =
    MsgServerDetected nat string
  | MsgReanalyzing
  | MsgTransforming
  | MsgMounting
  | MsgMounted
  | MsgAnalyzing
  | MsgFound "string list"
  | MsgDetected project_type
  | MsgReason string
  | MsgPackageManager package_manager
  | MsgRemovedLockfile string
  | MsgPreInstall string "string list"
  | MsgPreInstallFailed string
  | MsgInstallAttempt nat nat
  | MsgRunning string "string list"
  | MsgInstalled
  | MsgInstallExit int
  | MsgRetrying
  | MsgInstallFailed string
  | MsgMayNotInstalled
  | MsgStartingAnyway
  | MsgSkipInstall
  | MsgStarting string "string list"
  | MsgSkipServer
  | MsgError string
  | MsgOutput string

text \<open>
  What the component does to the world, in order: terminal writes, changes of the step
  index, calls into the sandbox, and waits.
\<close>

datatype action =
    Write term_msg
  | Step nat
  | FsRm string
  | MountFiles
  | SpawnTimed string "string list" nat "(string \<times> string) list option"
  | TimeoutKill
  | Sleep nat
  | SpawnStart string "string list"

record Preview =
  previewUrl :: string
  urlInput :: string
  navigationHistory :: "string list"
  historyIndex :: int
  loadingState :: LoadingState
  currentStep :: nat
  setupError :: "string option"
  isSetupComplete :: bool
  isSetupInProgress :: bool
  serverProcessIdRef :: "string option"
  pm :: ProcessManager
  trace :: "action list"

definition initial_preview :: Preview where
  "initial_preview =
     \<lparr>previewUrl = [], urlInput = ''/'', navigationHistory = [], historyIndex = - 1,
      loadingState = idle_loading, currentStep = 0, setupError = None,
      isSetupComplete = False, isSetupInProgress = False, serverProcessIdRef = None,
      pm = new_ProcessManager, trace = []\<rparr>"

definition act :: "action \<Rightarrow> Preview \<Rightarrow> Preview" where
  "act a s = s\<lparr>trace := trace s @ [a]\<rparr>"

definition writeToTerminal :: "term_msg \<Rightarrow> Preview \<Rightarrow> Preview" where
  "writeToTerminal m s = act (Write m) s"

definition setCurrentStep :: "nat \<Rightarrow> Preview \<Rightarrow> Preview" where
  "setCurrentStep n s = act (Step n) (s\<lparr>currentStep := n\<rparr>)"

subsection \<open>The two effects outside the pipeline\<close>

text \<open>
  The effect on \<^verbatim>\<open>forceResetup\<close>: \<^verbatim>\<open>setIsSetupComplete(false)\<close>,
  \<^verbatim>\<open>setIsSetupInProgress(false)\<close>, \<^verbatim>\<open>setPreviewUrl("")\<close>, \<^verbatim>\<open>setCurrentStep(0)\<close> and
  \<^verbatim>\<open>setLoadingState\<close> with every flag false, in this order.
\<close>

definition forceResetup_effect :: "bool \<Rightarrow> Preview \<Rightarrow> Preview" where
  "forceResetup_effect forceResetup s =
     (if forceResetup
      then (setCurrentStep 0
              (s\<lparr>isSetupComplete := False, isSetupInProgress := False, previewUrl := []\<rparr>))
             \<lparr>loadingState := idle_loading\<rparr>
      else s)"

text \<open>The listener \<^verbatim>\<open>instance.on("server-ready", (port, url) => ...)\<close>.\<close>

definition on_server_ready :: "nat \<Rightarrow> string \<Rightarrow> Preview \<Rightarrow> Preview" where
  "on_server_ready prt url s =
     (let s1 = writeToTerminal (MsgServerDetected prt url) s
      in s1\<lparr>previewUrl := url, urlInput := ''/'', isSetupComplete := True,
             isSetupInProgress := False, navigationHistory := [url], historyIndex := 0,
             loadingState := (loadingState s1)\<lparr>starting := False, ready := True\<rparr>\<rparr>)"

subsection \<open>The sandbox's answers during one run\<close>

text \<open>
  How a process run by \<^verbatim>\<open>runProcessWithTimeout\<close> ends: \<^verbatim>\<open>spawn\<close> rejects, the process
  exits with a code before the timer fires, or the timer fires first. The lists are the
  output chunks written before that.
\<close>

datatype run_outcome =
    SpawnRejects string
  | Exits "string list" int
  | TimesOut "string list"

text \<open>
  \<^verbatim>\<open>transformToWebContainerFormat\<close> and \<^verbatim>\<open>instance.mount\<close> succeed or throw a message; the
  mounted tree is what \<^verbatim>\<open>analyzeProject\<close> then reads; the runs of the pre-install commands
  are numbered from 0 and the install attempts from 1.
\<close>

record sandbox =
  existing_manifest :: bool
  transform_result :: "string + unit"
  mount_result :: "string + unit"
  mounted_fs :: sandbox_fs
  rm_succeeds :: "string \<Rightarrow> bool"
  pre_install_run :: "nat \<Rightarrow> run_outcome"
  install_run :: "nat \<Rightarrow> run_outcome"
  start_spawn :: "string + proc_handle"
  clock :: nat

subsection \<open>\<^verbatim>\<open>runProcessWithTimeout\<close>\<close>

text \<open>
  The race between \<^verbatim>\<open>proc.exit\<close> and the timer. When the timer wins it calls
  \<^verbatim>\<open>proc.kill()\<close> inside a \<^verbatim>\<open>try\<close> and rejects with the message
  \<^verbatim>\<open>`Process timed out after ${Math.round(timeoutMs / 1000)}s`\<close>. The timer is not cancelled
  when the process exits first; what it does later to the exited process has no effect on
  the run and is left out.
\<close>

definition timeout_message :: "nat \<Rightarrow> string" where
  "timeout_message timeoutMs =
     ''Process timed out after '' @ string_of_nat ((timeoutMs + 500) div 1000) @ ''s''"

definition runProcessWithTimeout ::
  "run_outcome \<Rightarrow> string \<Rightarrow> string list \<Rightarrow> nat \<Rightarrow> (string \<times> string) list option \<Rightarrow> Preview
     \<Rightarrow> (string + int \<times> string) \<times> Preview" where
  "runProcessWithTimeout outcome cmd args timeoutMs env s =
     (let s1 = act (SpawnTimed cmd args timeoutMs env) s
      in case outcome of
           SpawnRejects msg \<Rightarrow> (Inl msg, s1)
         | Exits chunks exitCode \<Rightarrow>
             (Inr (exitCode, concat chunks), fold (\<lambda>c. writeToTerminal (MsgOutput c)) chunks s1)
         | TimesOut chunks \<Rightarrow>
             (Inl (timeout_message timeoutMs),
              act TimeoutKill (fold (\<lambda>c. writeToTerminal (MsgOutput c)) chunks s1)))"

subsection \<open>The install step\<close>

definition ciEnv :: "(string \<times> string) list" where
  "ciEnv =
     [(''CI'', ''true''), (''FORCE_COLOR'', ''0''), (''DEBIAN_FRONTEND'', ''noninteractive''),
      (''npm_config_yes'', ''true''), (''BROWSERSLIST_IGNORE_OLD_DATA'', ''true''),
      (''npm_config_update_notifier'', ''false'')]"

text \<open>\<^verbatim>\<open>try { await instance.fs.rm(lockfile); writeToTerminal(...) } catch { }\<close> for each lockfile.\<close>

fun remove_lockfiles :: "(string \<Rightarrow> bool) \<Rightarrow> string list \<Rightarrow> Preview \<Rightarrow> Preview" where
  "remove_lockfiles ok [] s = s"
| "remove_lockfiles ok (f # fs) s =
     remove_lockfiles ok fs
       (if ok f then writeToTerminal (MsgRemovedLockfile f) (act (FsRm f) s) else act (FsRm f) s)"

fun run_pre_install ::
  "(nat \<Rightarrow> run_outcome) \<Rightarrow> nat \<Rightarrow> (string \<times> string list) list \<Rightarrow> Preview \<Rightarrow> Preview" where
  "run_pre_install outcome i [] s = s"
| "run_pre_install outcome i ((preCmd, preArgs) # rest) s =
     (let s1 = writeToTerminal (MsgPreInstall preCmd preArgs) s
      in case runProcessWithTimeout (outcome i) preCmd preArgs 30000 (Some ciEnv) s1 of
           (Inr res, s2) \<Rightarrow> run_pre_install outcome (i + 1) rest s2
         | (Inl msg, s2) \<Rightarrow>
             run_pre_install outcome (i + 1) rest (writeToTerminal (MsgPreInstallFailed msg) s2))"

definition MAX_RETRIES :: nat where
  "MAX_RETRIES = 2"

text \<open>
  \<^verbatim>\<open>if (attempt < MAX_RETRIES) { writeToTerminal("Retrying in 1 second..."); await new
  Promise(r => setTimeout(r, 1000)); }\<close>
\<close>

definition retry_wait :: "nat \<Rightarrow> Preview \<Rightarrow> Preview" where
  "retry_wait attempt s =
     (if attempt < MAX_RETRIES then act (Sleep 1000) (writeToTerminal MsgRetrying s) else s)"

text \<open>
  \<^verbatim>\<open>for (let attempt = 1; attempt <= MAX_RETRIES; attempt++)\<close>; the result is
  \<^verbatim>\<open>installSuccess\<close>. The \<^verbatim>\<open>catch\<close> takes a rejected \<^verbatim>\<open>spawn\<close> as it takes a timeout.
\<close>

function install_loop ::
  "(nat \<Rightarrow> run_outcome) \<Rightarrow> string \<times> string list \<Rightarrow> nat \<Rightarrow> Preview \<Rightarrow> bool \<times> Preview" where
  "install_loop outcome cmd attempt s =
     (if attempt \<le> MAX_RETRIES then
        (let s1 = writeToTerminal (MsgInstallAttempt attempt MAX_RETRIES) s;
             s2 = writeToTerminal (MsgRunning (fst cmd) (snd cmd)) s1
         in case runProcessWithTimeout (outcome attempt) (fst cmd) (snd cmd) 120000 (Some ciEnv) s2 of
              (Inr res, s3) \<Rightarrow>
                if fst res = 0 then (True, writeToTerminal MsgInstalled s3)
                else install_loop outcome cmd (attempt + 1)
                       (retry_wait attempt (writeToTerminal (MsgInstallExit (fst res)) s3))
            | (Inl msg, s3) \<Rightarrow>
                install_loop outcome cmd (attempt + 1)
                  (retry_wait attempt (writeToTerminal (MsgInstallFailed msg) s3)))
      else (False, s))"
  by pat_completeness auto

termination
  by (relation "measure (\<lambda>(outcome, cmd, attempt, s). Suc MAX_RETRIES - attempt)") auto

declare install_loop.simps [simp del]

definition install_phase :: "sandbox \<Rightarrow> ProjectAnalysis \<Rightarrow> Preview \<Rightarrow> Preview" where
  "install_phase sb analysis s =
     (case installCommand analysis of
        None \<Rightarrow> writeToTerminal MsgSkipInstall s
      | Some cmd \<Rightarrow>
          (let s1 = (if shouldRemoveLockfile analysis
                     then remove_lockfiles (rm_succeeds sb) lockFiles s else s);
               s2 = run_pre_install (pre_install_run sb) 0 (preInstallCommands analysis) s1
           in case install_loop (install_run sb) cmd 1 s2 of
                (True, s3) \<Rightarrow> s3
              | (False, s3) \<Rightarrow> writeToTerminal MsgStartingAnyway (writeToTerminal MsgMayNotInstalled s3)))"

subsection \<open>The start step and the handlers of the started process\<close>

fun join :: "string \<Rightarrow> string list \<Rightarrow> string" where
  "join sep [] = []"
| "join sep [x] = x"
| "join sep (x # y # ys) = x @ sep @ join sep (y # ys)"

definition start_phase :: "sandbox \<Rightarrow> ProjectAnalysis \<Rightarrow> Preview \<Rightarrow> (string + unit) \<times> Preview" where
  "start_phase sb analysis s =
     (case startCommand analysis of
        Some cmd \<Rightarrow>
          (let s1 = act (SpawnStart (fst cmd) (snd cmd))
                      (writeToTerminal (MsgStarting (fst cmd) (snd cmd)) s)
           in case start_spawn sb of
                Inl msg \<Rightarrow> (Inl msg, s1)
              | Inr startProcess \<Rightarrow>
                  (case register (clock sb) startProcess
                          (fst cmd @ '' '' @ join '' '' (snd cmd)) None (pm s1) of
                     (procId, pm') \<Rightarrow>
                       (Inr (), s1\<lparr>pm := pm', serverProcessIdRef := Some procId\<rparr>)))
      | None \<Rightarrow>
          (let s1 = writeToTerminal MsgSkipServer s
           in (Inr (), s1\<lparr>loadingState := (loadingState s1)\<lparr>starting := False, ready := True\<rparr>,
                          isSetupComplete := True, isSetupInProgress := False\<rparr>)))"

text \<open>The \<^verbatim>\<open>write(data)\<close> of the stream the start process's output is piped to.\<close>

definition on_start_output :: "string \<Rightarrow> string \<Rightarrow> Preview \<Rightarrow> Preview" where
  "on_start_output procId data s =
     (let s1 = writeToTerminal (MsgOutput data) s
      in s1\<lparr>pm := detect_port procId data (pm s1)\<rparr>)"

text \<open>\<^verbatim>\<open>startProcess.exit.then(() => { processManager.unregister(procId); ... })\<close>.\<close>

definition on_start_exit :: "string \<Rightarrow> Preview \<Rightarrow> Preview" where
  "on_start_exit procId s = s\<lparr>pm := unregister procId (pm s), serverProcessIdRef := None\<rparr>"

subsection \<open>\<^verbatim>\<open>setupContainer\<close>\<close>

definition log_analysis :: "ProjectAnalysis \<Rightarrow> Preview \<Rightarrow> Preview" where
  "log_analysis analysis s =
     (let s1 = (if 0 < length (detectedFiles analysis)
                then writeToTerminal (MsgFound (detectedFiles analysis)) s else s);
          s2 = writeToTerminal (MsgDetected (analysis_type analysis)) s1;
          s3 = writeToTerminal (MsgReason (reason analysis)) s2
      in case packageManager analysis of
           None \<Rightarrow> s3
         | Some m \<Rightarrow> writeToTerminal (MsgPackageManager m) s3)"

fun error_message :: "js_error \<Rightarrow> string" where
  "error_message TypeError = ''TypeError''"
| "error_message SyntaxError = ''SyntaxError''"
| "error_message (RuntimeError msg) = msg"

text \<open>
  The body of the outer \<^verbatim>\<open>try\<close>, after the two flags are set: it ends normally or with
  the message of an exception, in the state reached by then.
\<close>

definition setup_body :: "sandbox \<Rightarrow> Preview \<Rightarrow> (string + unit) \<times> Preview" where
  "setup_body sb s0 =
     (let s1 = (if existing_manifest sb then writeToTerminal MsgReanalyzing s0 else s0);
          s2 = writeToTerminal MsgTransforming
                 (setCurrentStep 1
                    (s1\<lparr>loadingState := (loadingState s1)\<lparr>transforming := True\<rparr>\<rparr>))
      in case transform_result sb of
           Inl msg \<Rightarrow> (Inl msg, s2)
         | Inr files \<Rightarrow>
             (let s3 = act MountFiles
                         (writeToTerminal MsgMounting
                            (setCurrentStep 2
                               (s2\<lparr>loadingState :=
                                      (loadingState s2)\<lparr>transforming := False, mounting := True\<rparr>\<rparr>)))
              in case mount_result sb of
                   Inl msg \<Rightarrow> (Inl msg, s3)
                 | Inr mounted \<Rightarrow>
                     (let s4 = writeToTerminal MsgMounted s3;
                          s5 = writeToTerminal MsgAnalyzing
                                 (setCurrentStep 3
                                    (s4\<lparr>loadingState :=
                                           (loadingState s4)\<lparr>mounting := False, analyzing := True\<rparr>\<rparr>))
                      in case analyzeProject (mounted_fs sb) of
                           Inl e \<Rightarrow> (Inl (error_message e), s5)
                         | Inr analysis \<Rightarrow>
                             (let s6 = log_analysis analysis s5;
                                  s7 = setCurrentStep 4
                                         (s6\<lparr>loadingState :=
                                                (loadingState s6)\<lparr>analyzing := False, installing := True\<rparr>\<rparr>);
                                  s8 = install_phase sb analysis s7;
                                  s9 = setCurrentStep 5
                                         (s8\<lparr>loadingState :=
                                                (loadingState s8)\<lparr>installing := False, starting := True\<rparr>\<rparr>)
                              in start_phase sb analysis s9))))"

text \<open>
  \<^verbatim>\<open>if (!instance || isSetupComplete || isSetupInProgress) return;\<close> and then the
  \<^verbatim>\<open>try\<close> with its \<^verbatim>\<open>catch\<close>. The sandbox is \<open>None\<close> while \<^verbatim>\<open>instance\<close> is \<^verbatim>\<open>null\<close>.
\<close>

definition setupContainer :: "sandbox option \<Rightarrow> Preview \<Rightarrow> Preview" where
  "setupContainer inst s =
     (case inst of
        None \<Rightarrow> s
      | Some sb \<Rightarrow>
          if isSetupComplete s \<or> isSetupInProgress s then s
          else
            (case setup_body sb (s\<lparr>isSetupInProgress := True, setupError := None\<rparr>) of
               (Inr done, s') \<Rightarrow> s'
             | (Inl errorMessage, s') \<Rightarrow>
                 (writeToTerminal (MsgError errorMessage) s')
                   \<lparr>setupError := Some errorMessage, isSetupInProgress := False,
                    loadingState := idle_loading\<rparr>))"

text \<open>
  The steps, timed runs, waits and server starts of a trace, without the terminal writes
  and the file system calls.
\<close>

fun is_milestone :: "action \<Rightarrow> bool" where
  "is_milestone (Step n) = True"
| "is_milestone (SpawnTimed cmd args timeoutMs env) = True"
| "is_milestone (Sleep ms) = True"
| "is_milestone (SpawnStart cmd args) = True"
| "is_milestone (Write m) = False"
| "is_milestone (FsRm f) = False"
| "is_milestone MountFiles = False"
| "is_milestone TimeoutKill = False"

definition milestones :: "Preview \<Rightarrow> action list" where
  "milestones s = filter is_milestone (trace s)"

text \<open>An install attempt counts as a success only when the process exits with code 0.\<close>

fun install_ok :: "run_outcome \<Rightarrow> bool" where
  "install_ok (Exits chunks exitCode) = (exitCode = 0)"
| "install_ok (SpawnRejects msg) = False"
| "install_ok (TimesOut chunks) = False"

text \<open>
  The install attempts as the specification words them: the install command runs under a
  timeout of 120 seconds; when the first attempt fails there is a wait of one second and a
  second attempt, and no third.
\<close>

definition spec_install_attempts :: "sandbox \<Rightarrow> string \<times> string list \<Rightarrow> action list" where
  "spec_install_attempts sb cmd =
     (if install_ok (install_run sb 1)
      then [SpawnTimed (fst cmd) (snd cmd) 120000 (Some ciEnv)]
      else [SpawnTimed (fst cmd) (snd cmd) 120000 (Some ciEnv), Sleep 1000,
            SpawnTimed (fst cmd) (snd cmd) 120000 (Some ciEnv)])"

text \<open>Two states that differ at most in their traces.\<close>

definition same_but_trace :: "Preview \<Rightarrow> Preview \<Rightarrow> bool" where
  "same_but_trace s s' = (s'\<lparr>trace := trace s\<rparr> = s)"

text \<open>
  A sandbox whose install exits with code 1 at the first attempt and runs into the timer
  at the second, and whose dev server then starts as process 7.
\<close>

definition failing_install_sandbox :: sandbox where
  "failing_install_sandbox =
     \<lparr>existing_manifest = False, transform_result = Inr (), mount_result = Inr (),
      mounted_fs = \<lparr>root_listing = Some [''package.json'', ''yarn.lock''],
                    manifest = Parsed build_start_pkg\<rparr>,
      rm_succeeds = (\<lambda>f. f = ''yarn.lock''),
      pre_install_run = (\<lambda>i. Exits [] 0),
      install_run = (\<lambda>attempt. if attempt = 1 then Exits [''error''] 1 else TimesOut []),
      start_spawn = Inr 7, clock = 0\<rparr>"

section \<open>Terminal tabs and their shell sessions (\<^verbatim>\<open>TerminalTabs\<close>, \<^verbatim>\<open>TerminalComponent\<close>)\<close>

text \<open>
  What a \<^verbatim>\<open>TerminalRef\<close> gives access to: the two refs of one terminal component that the
  tabs read and write through it, \<^verbatim>\<open>shellProcess\<close> (\<open>None\<close> for \<^verbatim>\<open>null\<close>) and
  \<^verbatim>\<open>processRunning\<close>.
\<close>

record TerminalSession =
  shellProcess :: "proc_handle option"
  processRunning :: bool

definition new_session :: TerminalSession where
  "new_session = \<lparr>shellProcess = None, processRunning = False\<rparr>"

text \<open>The interrupt: the string \<^verbatim>\<open>"\x03"\<close>.\<close>

definition ETX :: string where
  "ETX = [CHR 0x03]"

datatype tabs_event =
    ShellInput proc_handle string
  | RefDiscarded nat

text \<open>
  \<^verbatim>\<open>terminalRefs\<close> is a \<^verbatim>\<open>Map<number, TerminalRef | null>\<close>; a terminal's component state is
  kept with its entry. \<^verbatim>\<open>terminalIds\<close> lists the terminals beside the default one, whose
  id is 0 and which is always rendered.

  The callbacks and the rendered tree hold the values of \<^verbatim>\<open>terminalIds\<close> and
  \<^verbatim>\<open>activeTerminal\<close> that the last render saw (\<^verbatim>\<open>useCallback\<close> with the dependencies
  \<^verbatim>\<open>[terminalIds.length]\<close> and \<^verbatim>\<open>[activeTerminal]\<close>): \<open>renderedIds\<close> and
  \<open>renderedActive\<close>. A state setter changes the current value at once; the rendered
  values follow at the next render. Refs (\<^verbatim>\<open>nextIdRef\<close>, \<^verbatim>\<open>terminalRefs\<close>) are always
  current.
\<close>

record TerminalTabs =
  activeTerminal :: nat
  terminalIds :: "nat list"
  nextIdRef :: nat
  terminalRefs :: "(nat \<times> TerminalSession option) list"
  runningProcesses :: "nat set"
  tab_events :: "tabs_event list"
  renderedIds :: "nat list"
  renderedActive :: nat

definition initial_tabs :: TerminalTabs where
  "initial_tabs =
     \<lparr>activeTerminal = 0, terminalIds = [], nextIdRef = 1, terminalRefs = [],
      runningProcesses = {}, tab_events = [], renderedIds = [], renderedActive = 0\<rparr>"

definition render :: "TerminalTabs \<Rightarrow> TerminalTabs" where
  "render t = t\<lparr>renderedIds := terminalIds t, renderedActive := activeTerminal t\<rparr>"

definition MAX_TERMINALS :: nat where
  "MAX_TERMINALS = 3"

text \<open>
  \<^verbatim>\<open>if (terminalIds.length < MAX_TERMINALS)\<close> reads the length the last render saw;
  \<^verbatim>\<open>setTerminalIds((prev) => [...prev, newId])\<close> appends to the current list.
\<close>

definition addTerminal :: "TerminalTabs \<Rightarrow> TerminalTabs" where
  "addTerminal t =
     (if length (renderedIds t) < MAX_TERMINALS
      then (let newId = nextIdRef t
            in t\<lparr>nextIdRef := newId + 1, terminalIds := terminalIds t @ [newId],
                 activeTerminal := newId\<rparr>)
      else t)"

definition handleProcessStateChange :: "nat \<Rightarrow> bool \<Rightarrow> TerminalTabs \<Rightarrow> TerminalTabs" where
  "handleProcessStateChange terminalId isRunning t =
     t\<lparr>runningProcesses :=
          (if isRunning then insert terminalId (runningProcesses t)
           else runningProcesses t - {terminalId})\<rparr>"

text \<open>\<^verbatim>\<open>terminalRefs.current.get(id)\<close>: \<open>None\<close> when the entry is missing or \<^verbatim>\<open>null\<close>.\<close>

definition get_ref :: "TerminalTabs \<Rightarrow> nat \<Rightarrow> TerminalSession option" where
  "get_ref t i = (case map_get (terminalRefs t) i of Some (Some se) \<Rightarrow> Some se | _ \<Rightarrow> None)"

definition put_session :: "nat \<Rightarrow> TerminalSession \<Rightarrow> TerminalTabs \<Rightarrow> TerminalTabs" where
  "put_session i se t = t\<lparr>terminalRefs := map_set i (Some se) (terminalRefs t)\<rparr>"

text \<open>
  \<^verbatim>\<open>setProcessRunning(running)\<close> of terminal \<open>i\<close>: on a change it stores the flag and calls
  \<^verbatim>\<open>onProcessStateChange\<close>, which the tabs bind to \<^verbatim>\<open>handleProcessStateChange(i, ...)\<close>.
\<close>

definition setProcessRunning :: "nat \<Rightarrow> TerminalSession \<Rightarrow> bool \<Rightarrow> TerminalTabs \<Rightarrow> TerminalTabs" where
  "setProcessRunning i se running t =
     (if processRunning se \<noteq> running
      then handleProcessStateChange i running (put_session i (se\<lparr>processRunning := running\<rparr>) t)
      else t)"

text \<open>
  \<^verbatim>\<open>killProcess()\<close> of terminal \<open>i\<close>: with a shell connected, write the interrupt to its
  input and mark the process stopped.
\<close>

definition killProcess :: "nat \<Rightarrow> TerminalSession \<Rightarrow> TerminalTabs \<Rightarrow> TerminalTabs" where
  "killProcess i se t =
     (case shellProcess se of
        None \<Rightarrow> t
      | Some p \<Rightarrow>
          setProcessRunning i se False (t\<lparr>tab_events := tab_events t @ [ShellInput p ETX]\<rparr>))"

definition closeTerminal :: "nat \<Rightarrow> TerminalTabs \<Rightarrow> TerminalTabs" where
  "closeTerminal i t =
     (if i = 0 then t
      else
        (let t1 = (case get_ref t i of
                     None \<Rightarrow> t
                   | Some se \<Rightarrow> if processRunning se then killProcess i se t else t);
             t2 = t1\<lparr>terminalRefs := map_delete i (terminalRefs t1),
                     tab_events := tab_events t1 @ [RefDiscarded i]\<rparr>;
             t3 = t2\<lparr>runningProcesses := runningProcesses t2 - {i}\<rparr>;
             t4 = t3\<lparr>terminalIds := filter (\<lambda>tid. tid \<noteq> i) (terminalIds t3)\<rparr>
         in if renderedActive t = i then t4\<lparr>activeTerminal := 0\<rparr> else t4))"

text \<open>
  The other events of a terminal. React sets the ref of a terminal that the last render
  lists to its component (a new component starts without a shell) and the ref of a
  terminal that it no longer lists to \<^verbatim>\<open>null\<close>. A shell connects when none is connected. Output arrives
  from a connected shell; whether it matches one of \<^verbatim>\<open>SERVER_RUNNING_PATTERNS\<close> is part of
  the event. Input typed by the user goes to a connected shell, and an interrupt among it
  marks the process stopped.
\<close>

definition ref_callback :: "nat \<Rightarrow> bool \<Rightarrow> TerminalTabs \<Rightarrow> TerminalTabs" where
  "ref_callback i mounted t =
     (if mounted then
        (if (i = 0 \<or> i \<in> set (renderedIds t)) \<and> get_ref t i = None
         then put_session i new_session t else t)
      else
        (if i \<noteq> 0 \<and> i \<notin> set (renderedIds t)
         then t\<lparr>terminalRefs := map_set i None (terminalRefs t)\<rparr> else t))"

definition shell_connected :: "nat \<Rightarrow> proc_handle \<Rightarrow> TerminalTabs \<Rightarrow> TerminalTabs" where
  "shell_connected i p t =
     (case get_ref t i of
        None \<Rightarrow> t
      | Some se \<Rightarrow>
          if shellProcess se = None then put_session i (se\<lparr>shellProcess := Some p\<rparr>) t else t)"

definition shell_output :: "nat \<Rightarrow> bool \<Rightarrow> TerminalTabs \<Rightarrow> TerminalTabs" where
  "shell_output i pattern_matches t =
     (case get_ref t i of
        None \<Rightarrow> t
      | Some se \<Rightarrow>
          if shellProcess se \<noteq> None \<and> pattern_matches
          then handleProcessStateChange i True (put_session i (se\<lparr>processRunning := True\<rparr>) t)
          else t)"

definition user_input :: "nat \<Rightarrow> string \<Rightarrow> TerminalTabs \<Rightarrow> TerminalTabs" where
  "user_input i data t =
     (case get_ref t i of
        None \<Rightarrow> t
      | Some se \<Rightarrow>
          (case shellProcess se of
             None \<Rightarrow> t
           | Some p \<Rightarrow>
               (let t1 = t\<lparr>tab_events := tab_events t @ [ShellInput p data]\<rparr>
                in if data = ETX
                   then handleProcessStateChange i False
                          (put_session i (se\<lparr>processRunning := False\<rparr>) t1)
                   else t1)))"

datatype tabs_op =
    Render
  | AddTerminal
  | CloseTerminal nat
  | SetActive nat
  | RefCallback nat bool
  | ShellConnected nat proc_handle
  | ShellOutput nat bool
  | UserInput nat string
  | KillProcess nat

fun apply_op :: "tabs_op \<Rightarrow> TerminalTabs \<Rightarrow> TerminalTabs" where
  "apply_op Render t = render t"
| "apply_op AddTerminal t = addTerminal t"
| "apply_op (CloseTerminal i) t = closeTerminal i t"
| "apply_op (SetActive i) t = t\<lparr>activeTerminal := i\<rparr>"
| "apply_op (RefCallback i mounted) t = ref_callback i mounted t"
| "apply_op (ShellConnected i p) t = shell_connected i p t"
| "apply_op (ShellOutput i pattern_matches) t = shell_output i pattern_matches t"
| "apply_op (UserInput i data) t = user_input i data t"
| "apply_op (KillProcess i) t = (case get_ref t i of None \<Rightarrow> t | Some se \<Rightarrow> killProcess i se t)"

text \<open>
  The state of the tabs after a sequence of events, from the first render on; a render is
  an event among the others.
\<close>

definition tabs_after :: "tabs_op list \<Rightarrow> TerminalTabs" where
  "tabs_after ops = fold apply_op ops initial_tabs"

text \<open>The state after a sequence of events when a render follows each of them.\<close>

definition tabs_after_rendered :: "tabs_op list \<Rightarrow> TerminalTabs" where
  "tabs_after_rendered ops = fold (\<lambda>op t. render (apply_op op t)) ops initial_tabs"

text \<open>
  What every event keeps: no terminal id is 0, and there is a shell behind every session
  that is marked running.
\<close>

definition session_ok :: "nat \<times> TerminalSession option \<Rightarrow> bool" where
  "session_ok entry =
     (case snd entry of
        None \<Rightarrow> True
      | Some se \<Rightarrow> \<not> processRunning se \<or> shellProcess se \<noteq> None)"

definition tabs_inv :: "TerminalTabs \<Rightarrow> bool" where
  "tabs_inv t =
     (0 \<notin> set (terminalIds t) \<and> 0 < nextIdRef t \<and> list_all session_ok (terminalRefs t))"

text \<open>What holds after a render that follows each event: the cap, on a list that is rendered.\<close>

definition cap_inv :: "TerminalTabs \<Rightarrow> bool" where
  "cap_inv t = (renderedIds t = terminalIds t \<and> length (terminalIds t) \<le> MAX_TERMINALS)"

text \<open>
  Three terminals are opened with a render after each, the third gets a shell and shows a
  running server; a fourth is asked for.
\<close>

definition busy_tabs_ops :: "tabs_op list" where
  "busy_tabs_ops =
     [AddTerminal, Render, AddTerminal, Render, AddTerminal, Render, RefCallback 3 True,
      ShellConnected 3 42, ShellOutput 3 True, AddTerminal, Render]"


text \<open>A registry with one subscriber and one registered process, for concrete runs.\<close>

definition demo_registry :: ProcessManager where
  "demo_registry = snd (register 0 7 ''npm run dev'' None (subscribe 1 new_ProcessManager))"

text \<open>The same registry once the server has announced port 5173.\<close>

definition served_registry :: ProcessManager where
  "served_registry = detect_port ''proc-1'' ''Local: http://localhost:5173/'' demo_registry"


section \<open>Properties of the process registry\<close>

lemma keys_map_delete: "map fst (map_delete k m) = filter (\<lambda>x. x \<noteq> k) (map fst m)"
  by (induction m) (auto simp: map_delete_def)

lemma set_map_delete: "set (map_delete k m) = {kv \<in> set m. fst kv \<noteq> k}"
  by (auto simp: map_delete_def)

lemma keys_map_set:
  "map fst (map_set k v m) = (if k \<in> set (map fst m) then map fst m else map fst m @ [k])"
  by (induction m) (force+)

lemma distinct_map_set: "distinct (map fst m) \<Longrightarrow> distinct (map fst (map_set k v m))"
  by (simp add: keys_map_set)

lemma set_map_set: "set (map_set k v m) \<subseteq> insert (k, v) (set m)"
  by (induction m) (auto split: if_splits)

lemma map_of_map_set: "map_of (map_set k v m) = (map_of m)(k \<mapsto> v)"
  by (induction m) auto

lemma try_kill_eq: "try_kill throws p s = s\<lparr>events := events s @ [KillCalled p]\<rparr>"
  by (simp add: try_kill_def process_kill_def)

lemma wf_tracked_ids: "wf_registry s \<Longrightarrow> tracked_ids s = map fst (processes s)"
  by (auto simp: wf_registry_def tracked_ids_def getAll_def list_all_iff)

lemma wf_new: "wf_registry new_ProcessManager"
  by (simp add: wf_registry_def new_ProcessManager_def)

lemma wf_notify [simp]: "wf_registry (notify s) = wf_registry s"
  by (simp add: wf_registry_def notify_def)

lemma wf_events_upd [simp]: "wf_registry (s\<lparr>events := e\<rparr>) = wf_registry s"
  by (simp add: wf_registry_def)

lemma wf_delete: "wf_registry s \<Longrightarrow> wf_registry (s\<lparr>processes := map_delete k (processes s)\<rparr>)"
  by (auto simp: wf_registry_def keys_map_delete list_all_iff set_map_delete)

lemma notify_fields [simp]:
  "processes (notify s) = processes s" "heap (notify s) = heap s"
  "listeners (notify s) = listeners s" "nextId (notify s) = nextId s"
  by (simp_all add: notify_def)

lemma wf_set:
  assumes "wf_registry s" and "info_id obj = k"
  shows "wf_registry (s\<lparr>heap := heap s @ [obj], processes := map_set k (length (heap s)) (processes s)\<rparr>)"
proof -
  have "kr \<in> set (map_set k (length (heap s)) (processes s)) \<Longrightarrow>
        snd kr < length (heap s @ [obj]) \<and> info_id ((heap s @ [obj]) ! snd kr) = fst kr" for kr
    using set_map_set[of k "length (heap s)" "processes s"] assms
    by (auto simp: wf_registry_def list_all_iff nth_append)
  with assms(1) show ?thesis
    by (simp add: wf_registry_def list_all_iff distinct_map_set)
qed

lemma wf_nextId_upd [simp]: "wf_registry (s\<lparr>nextId := n\<rparr>) = wf_registry s"
  by (simp add: wf_registry_def)

lemma wf_register: "wf_registry s \<Longrightarrow> wf_registry (snd (register now p cmd prt s))"
  using wf_set[of "s\<lparr>nextId := nextId s + 1\<rparr>"
      "\<lparr>info_id = ''proc-'' @ string_of_nat (nextId s), process = p, command = cmd,
        port = prt, startedAt = now\<rparr>" "''proc-'' @ string_of_nat (nextId s)"]
  by (simp add: register_def Let_def)

lemma kill_untracked: "map_get (processes s) ident = None \<Longrightarrow> kill throws ident s = (False, s)"
  by (simp add: kill_def)

lemma kill_tracked:
  "map_get (processes s) ident = Some r \<Longrightarrow>
   kill throws ident s =
     (True, s\<lparr>processes := map_delete ident (processes s),
             events := events s @ KillCalled (process (heap s ! r)) #
                         map (\<lambda>l. Notified l (map_delete ident (processes s))) (listeners s)\<rparr>)"
  by (simp add: kill_def try_kill_eq notify_def Let_def)

lemma map_get_iff: "(map_get m k = None) = (k \<notin> set (map fst m))"
  by (simp add: map_get_def map_of_eq_None_iff)

lemma wf_kill: "wf_registry s \<Longrightarrow> wf_registry (snd (kill throws ident s))"
  by (cases "map_get (processes s) ident")
     (auto simp: kill_untracked kill_tracked dest: wf_delete)

text \<open>
  Claim C7. In every well-formed registry state (the states the registry's methods reach
  are well-formed), \<^verbatim>\<open>kill(id)\<close> with an id that is not tracked returns false and changes
  nothing. With a tracked id it calls \<^verbatim>\<open>kill()\<close> on the
  entry's process (whether or not that call throws), removes exactly that entry from what
  \<^verbatim>\<open>getAll()\<close> shows, then calls every listener once with the updated table, and returns
  true; a second \<^verbatim>\<open>kill\<close> with the same id returns false.
\<close>

theorem kill_removes_entry:
  assumes "wf_registry s"
  shows "(ident \<notin> set (tracked_ids s) \<longrightarrow> kill throws ident s = (False, s)) \<and>
         (ident \<in> set (tracked_ids s) \<longrightarrow>
            (\<exists>r. map_get (processes s) ident = Some r \<and>
                 fst (kill throws ident s) = True \<and>
                 events (snd (kill throws ident s)) =
                   events s @ KillCalled (process (heap s ! r)) #
                     map (\<lambda>l. Notified l (processes (snd (kill throws ident s)))) (listeners s) \<and>
                 set (tracked_ids (snd (kill throws ident s))) = set (tracked_ids s) - {ident} \<and>
                 fst (kill throws ident (snd (kill throws ident s))) = False))"
proof (intro conjI impI)
  assume "ident \<notin> set (tracked_ids s)"
  with assms show "kill throws ident s = (False, s)"
    by (simp add: wf_tracked_ids kill_untracked map_get_iff)
next
  assume "ident \<in> set (tracked_ids s)"
  with assms obtain r where r: "map_get (processes s) ident = Some r"
    by (cases "map_get (processes s) ident") (auto simp: wf_tracked_ids map_get_iff)
  let ?s' = "snd (kill throws ident s)"
  have wf': "wf_registry ?s'" using assms by (rule wf_kill)
  have ids: "tracked_ids ?s' = filter (\<lambda>x. x \<noteq> ident) (tracked_ids s)"
    using wf' assms r by (simp add: wf_tracked_ids kill_tracked keys_map_delete)
  have gone: "map_get (processes ?s') ident = None"
    using r by (simp add: kill_tracked map_get_iff keys_map_delete)
  show "\<exists>r. map_get (processes s) ident = Some r \<and>
                 fst (kill throws ident s) = True \<and>
                 events (snd (kill throws ident s)) =
                   events s @ KillCalled (process (heap s ! r)) #
                     map (\<lambda>l. Notified l (processes (snd (kill throws ident s)))) (listeners s) \<and>
                 set (tracked_ids (snd (kill throws ident s))) = set (tracked_ids s) - {ident} \<and>
                 fst (kill throws ident (snd (kill throws ident s))) = False"
    using r ids gone by (intro exI[of _ r]) (auto simp: kill_tracked kill_untracked)
qed

lemma demo_registry_eq:
  "demo_registry = \<lparr>heap = [\<lparr>info_id = ''proc-1'', process = 7, command = ''npm run dev'', port = None, startedAt = 0\<rparr>],
      processes = [(''proc-1'', 0)], listeners = [1], nextId = 2,
      events = [Notified 1 [(''proc-1'', 0)]]\<rparr>"
  by (simp add: demo_registry_def register_def subscribe_def new_ProcessManager_def notify_def
      string_of_nat.simps digit_char_def Let_def)

theorem kill_removes_entry_witness:
  "wf_registry demo_registry \<and> ''proc-1'' \<in> set (tracked_ids demo_registry) \<and>
   fst (kill (\<lambda>p. True) ''proc-1'' demo_registry) = True \<and>
   tracked_ids (snd (kill (\<lambda>p. True) ''proc-1'' demo_registry)) = [] \<and>
   fst (kill (\<lambda>p. True) ''proc-1'' (snd (kill (\<lambda>p. True) ''proc-1'' demo_registry))) = False \<and>
   kill (\<lambda>p. True) ''proc-9'' demo_registry = (False, demo_registry)"
proof -
  have wf: "wf_registry demo_registry"
    by (simp add: demo_registry_eq wf_registry_def)
  have ids: "tracked_ids demo_registry = [''proc-1'']"
    by (simp add: demo_registry_eq tracked_ids_def getAll_def)
  from kill_removes_entry [OF wf, of "''proc-1''" "\<lambda>p. True"]
       kill_removes_entry [OF wf, of "''proc-9''" "\<lambda>p. True"] wf ids
  show ?thesis by auto
qed

lemma killAll_loop_eq:
  "killAll_loop throws es s =
     s\<lparr>events := events s @ map (\<lambda>kr. KillCalled (process (heap s ! snd kr))) es\<rparr>"
  by (induction es arbitrary: s) (auto simp: try_kill_eq)

text \<open>
  Claim C8. For every registry state and every way the processes' \<^verbatim>\<open>kill()\<close> calls throw,
  \<^verbatim>\<open>killAll()\<close> calls \<^verbatim>\<open>kill()\<close> on each tracked process in table order, leaves the
  table empty, and then notifies once: each listener is called exactly one time, with the
  empty table.
\<close>

theorem killAll_empties_table:
  "processes (killAll throws s) = [] \<and> getAll (killAll throws s) = [] \<and>
   events (killAll throws s) =
     events s @ map (\<lambda>kr. KillCalled (process (heap s ! snd kr))) (processes s)
              @ map (\<lambda>l. Notified l []) (listeners s)"
  by (simp add: killAll_def killAll_loop_eq notify_def getAll_def)


section \<open>Properties of the project analyzer\<close>

text \<open>
  Claim C5. For every root listing, \<^verbatim>\<open>detectPackageManager\<close> returns the one manager that
  comes first in the order bun, pnpm, yarn, npm among those with a lockfile in the listing
  (none when there is no lockfile); and when a listing with a \<^verbatim>\<open>package.json\<close> has no
  lockfile, the analysis reports npm as the package manager and installs with npm.
\<close>

theorem detectPackageManager_priority:
  "detectPackageManager files = spec_detect files \<and>
   (root_listing fs = Some files \<and> ''package.json'' \<in> set files \<and> spec_detect files = None \<longrightarrow>
      (\<exists>a. analyzeProject fs = Inr a \<and> packageManager a = Some Npm \<and>
           installCommand a = Some (getInstallCommand (Some Npm))))"
  by (auto simp: detectPackageManager_def spec_detect_def spec_priority_def has_lockfile_def
      analyzeProject_def analyze_body_def or_npm_def getInstallCommand_def Let_def)

theorem detectPackageManager_priority_witness:
  "detectPackageManager [''yarn.lock'', ''package.json'', ''bun.lock''] = Some Bun \<and>
   detectPackageManager [''package-lock.json'', ''yarn.lock''] = Some Yarn \<and>
   spec_detect [''package.json'', ''index.html''] = None \<and>
   (\<exists>a. analyzeProject \<lparr>root_listing = Some [''package.json'', ''index.html''], manifest = ReadFails\<rparr>
          = Inr a \<and> packageManager a = Some Npm)"
proof -
  have none: "spec_detect [''package.json'', ''index.html''] = None"
    by (simp add: spec_detect_def spec_priority_def has_lockfile_def)
  have bun: "spec_detect [''yarn.lock'', ''package.json'', ''bun.lock''] = Some Bun"
    by (simp add: spec_detect_def spec_priority_def has_lockfile_def)
  have yarn: "spec_detect [''package-lock.json'', ''yarn.lock''] = Some Yarn"
    by (simp add: spec_detect_def spec_priority_def has_lockfile_def)
  from detectPackageManager_priority
         [of "[''package.json'', ''index.html'']"
             "\<lparr>root_listing = Some [''package.json'', ''index.html''], manifest = ReadFails\<rparr>"]
       detectPackageManager_priority [of "[''yarn.lock'', ''package.json'', ''bun.lock'']"]
       detectPackageManager_priority [of "[''package-lock.json'', ''yarn.lock'']"]
       none bun yarn
  show ?thesis by auto
qed

lemma analyzeProject_total: "\<exists>a. analyzeProject fs = Inr a \<and> reason a \<noteq> []"
  by (auto simp: analyzeProject_def analyze_body_def no_commands_def Let_def
      split: option.splits list.splits sum.splits)

text \<open>
  Claim C4 as stated fails: with a \<^verbatim>\<open>package.json\<close> that is not valid JSON the inner
  \<^verbatim>\<open>catch\<close> absorbs the parse error and the result has type \<^verbatim>\<open>node\<close>, not
  \<^verbatim>\<open>unknown\<close>.
\<close>

theorem analyzeProject_invalid_manifest_counterexample:
  "map_sum id analysis_type (analyzeProject invalid_manifest_fs) = Inr Node \<and>
   map_sum id analysis_type (analyzeProject invalid_manifest_fs) \<noteq> Inr Unknown"
  by (simp add: analyzeProject_def analyze_body_def invalid_manifest_fs_def Let_def)

text \<open>
  Claim C4, amended. \<^verbatim>\<open>analyzeProject\<close> never raises: for every state of the file system it
  returns an analysis, with a non-empty reason. When the root listing has a
  \<^verbatim>\<open>package.json\<close> whose content is not valid JSON, the result has type \<^verbatim>\<open>node\<close>, the
  start command \<^verbatim>\<open>npm run dev\<close> and a non-empty reason. The result has type \<^verbatim>\<open>unknown\<close>
  with a non-empty reason when the root listing itself cannot be read.
\<close>

theorem analyzeProject_never_raises:
  "(\<exists>a. analyzeProject fs = Inr a \<and> reason a \<noteq> []) \<and>
   (root_listing fs = Some files \<and> ''package.json'' \<in> set files \<and> manifest fs = ParseFails \<longrightarrow>
      (\<exists>a. analyzeProject fs = Inr a \<and> analysis_type a = Node \<and>
           startCommand a = Some (''npm'', [''run'', ''dev'']) \<and> reason a \<noteq> [])) \<and>
   (root_listing fs = None \<longrightarrow>
      (\<exists>a. analyzeProject fs = Inr a \<and> analysis_type a = Unknown \<and> reason a \<noteq> []))"
  using analyzeProject_total [of fs]
  by (auto simp: analyzeProject_def analyze_body_def no_commands_def Let_def
      start_script_def read_start_script_def)

theorem analyzeProject_never_raises_witness:
  "(\<exists>a. analyzeProject invalid_manifest_fs = Inr a \<and> analysis_type a = Node \<and>
        startCommand a = Some (''npm'', [''run'', ''dev'']) \<and> reason a \<noteq> []) \<and>
   (\<exists>a. analyzeProject \<lparr>root_listing = None, manifest = ReadFails\<rparr> = Inr a \<and>
        analysis_type a = Unknown \<and> reason a \<noteq> [])"
  using analyzeProject_never_raises [of invalid_manifest_fs "[''package.json'']"]
        analyzeProject_never_raises [of "\<lparr>root_listing = None, manifest = ReadFails\<rparr>" "[]"]
  by (simp add: invalid_manifest_fs_def)

lemma keyset_map_set: "fst ` set (map_set k v m) = insert k (fst ` set m)"
proof -
  have "set (map fst (map_set k v m)) = insert k (set (map fst m))"
    unfolding keys_map_set by auto
  then show ?thesis by simp
qed

lemma js_object_step_keys:
  "fst ` set (foldl (\<lambda>m kv. map_set (fst kv) (snd kv) m) acc ms) =
     fst ` set acc \<union> fst ` set ms"
  by (induction ms arbitrary: acc) (simp_all add: keyset_map_set)

lemma js_object_step_values:
  "set (map snd (foldl (\<lambda>m kv. map_set (fst kv) (snd kv) m) acc ms)) \<subseteq>
     set (map snd acc) \<union> set (map snd ms)"
proof (induction ms arbitrary: acc)
  case Nil
  show ?case by simp
next
  case (Cons kv ms)
  have "set (map snd (map_set (fst kv) (snd kv) acc)) \<subseteq> insert (snd kv) (set (map snd acc))"
    using set_map_set [of "fst kv" "snd kv" acc] by auto
  with Cons [of "map_set (fst kv) (snd kv) acc"] show ?case by auto
qed

lemma js_object_step_hd:
  "acc \<noteq> [] \<Longrightarrow>
   hd (map fst (foldl (\<lambda>m kv. map_set (fst kv) (snd kv) m) acc ms)) = hd (map fst acc) \<and>
   foldl (\<lambda>m kv. map_set (fst kv) (snd kv) m) acc ms \<noteq> []"
proof (induction ms arbitrary: acc)
  case Nil
  then show ?case by simp
next
  case (Cons kv ms)
  from Cons.prems have "map_set (fst kv) (snd kv) acc \<noteq> []"
    by (cases acc) (auto split: if_splits)
  moreover from Cons.prems have "hd (map fst (map_set (fst kv) (snd kv) acc)) = hd (map fst acc)"
    by (cases acc) (auto split: if_splits)
  ultimately show ?case using Cons.IH [of "map_set (fst kv) (snd kv) acc"] by simp
qed

lemma js_object_keys: "fst ` set (js_object ms) = fst ` set ms"
  by (simp add: js_object_def js_object_step_keys)

lemma js_object_Nil [simp]: "js_object [] = []"
  by (simp add: js_object_def)

lemma js_object_hd: "map fst (js_object ((k, v) # ms)) = k # tl (map fst (js_object ((k, v) # ms)))"
proof -
  have "hd (map fst (js_object ((k, v) # ms))) = k \<and> js_object ((k, v) # ms) \<noteq> []"
    using js_object_step_hd [of "[(k, v)]" ms] by (simp add: js_object_def)
  then show ?thesis by (cases "js_object ((k, v) # ms)") auto
qed

lemma plain_member_truthy:
  assumes "list_all plain_script ss"
  shows "truthy_opt (map_get (js_object ss) k) = (k \<in> set (map fst ss))"
proof (cases "map_get (js_object ss) k")
  case None
  then have "k \<notin> fst ` set (js_object ss)"
    by (simp add: map_get_iff)
  with None show ?thesis
    using js_object_keys [of ss] by (simp add: truthy_opt_def)
next
  case (Some v)
  then have "(k, v) \<in> set (js_object ss)"
    by (simp add: map_get_def map_of_SomeD)
  then have "v \<in> set (map snd (js_object ss))" and "k \<in> set (map fst (js_object ss))"
    by force+
  moreover have "set (map snd (js_object ss)) \<subseteq> set (map snd ss)"
    using js_object_step_values [of "[]" ss] by (simp add: js_object_def)
  ultimately have "v \<in> set (map snd ss)" and "k \<in> set (map fst ss)"
    using js_object_keys [of ss] by auto
  with assms Some show ?thesis
    by (auto simp: truthy_opt_def list_all_iff plain_script_def)
qed

lemma plain_own_keys:
  assumes "list_all plain_script ss"
  shows "own_keys ss = map fst (js_object ss)"
proof -
  have "\<forall>k \<in> set (map fst (js_object ss)). \<not> is_array_index k"
    using assms js_object_keys [of ss] by (auto simp: list_all_iff plain_script_def)
  then have "filter is_array_index (map fst (js_object ss)) = []"
    and "filter (\<lambda>k. \<not> is_array_index k) (map fst (js_object ss)) = map fst (js_object ss)"
    by (auto simp: filter_empty_conv filter_id_conv)
  then show ?thesis by (simp add: own_keys_def Let_def)
qed

lemma choose_plain:
  assumes "get_prop pkg ''scripts'' = Inr (Some (JObj ss))" and "list_all plain_script ss"
  shows "choose_start_script pkg = Inr (spec_start_script (map fst ss))"
proof (cases ss)
  case Nil
  with assms(1) show ?thesis
    by (simp add: choose_start_script_def bind_err_def spec_start_script_def truthy_opt_def
        map_get_def own_keys_def)
next
  case (Cons kv rest)
  obtain k v where kv: "kv = (k, v)" by (cases kv)
  from assms(2) Cons kv have "k \<noteq> []"
    by (simp add: plain_script_def)
  moreover have "own_keys ss = k # tl (map fst (js_object ss))"
    using plain_own_keys [OF assms(2)] js_object_hd [of k v rest] Cons kv by simp
  ultimately show ?thesis
    using assms(1) plain_member_truthy [OF assms(2)] Cons kv
    by (simp add: choose_start_script_def bind_err_def spec_start_script_def)
qed

text \<open>
  Claim C6 as stated fails on two readable manifests. With the scripts \<^verbatim>\<open>build\<close> and
  \<^verbatim>\<open>1\<close> declared in that order, \<^verbatim>\<open>Object.keys\<close> lists the numeric name first and the
  analyzer chooses \<^verbatim>\<open>1\<close>, not the first declared script. With \<^verbatim>\<open>dev\<close> declared as the
  empty string next to \<^verbatim>\<open>start\<close>, the test \<^verbatim>\<open>pkg.scripts.dev\<close> is falsy and the analyzer
  chooses \<^verbatim>\<open>start\<close>.
\<close>

theorem start_script_counterexample:
  "start_script (Parsed numbered_script_pkg) = ''1'' \<and>
   spec_start_script (declared_scripts numbered_script_pkg) = ''build'' \<and>
   start_script (Parsed empty_dev_pkg) = ''start'' \<and>
   spec_start_script (declared_scripts empty_dev_pkg) = ''dev''"
  by (simp add: start_script_def read_start_script_def choose_start_script_def bind_err_def
      numbered_script_pkg_def empty_dev_pkg_def js_object_def map_get_def truthy_opt_def
      own_keys_def is_array_index_def is_digit_def parseInt_def digit_val_def
      spec_start_script_def declared_scripts_def)

text \<open>
  Claim C6, amended. The script is \<^verbatim>\<open>dev\<close> when the manifest cannot be read, cannot be
  parsed, is \<^verbatim>\<open>null\<close>, or has no \<^verbatim>\<open>scripts\<close> member or a falsy one. For every readable manifest whose \<^verbatim>\<open>scripts\<close>
  member is an object in which every script has a truthy value (such as a non-empty
  command) and a name that is neither empty nor an array index, the chosen script follows
  the priority \<^verbatim>\<open>dev\<close>, \<^verbatim>\<open>start\<close>, \<^verbatim>\<open>preview\<close>, first declared script in declaration
  order, and is \<^verbatim>\<open>dev\<close> when no script is declared.
\<close>

theorem start_script_priority:
  "start_script ReadFails = ''dev'' \<and> start_script ParseFails = ''dev'' \<and>
   start_script (Parsed JNull) = ''dev'' \<and>
   (get_prop pkg ''scripts'' = Inr None \<longrightarrow> start_script (Parsed pkg) = ''dev'') \<and>
   (get_prop pkg ''scripts'' = Inr (Some v) \<and> \<not> truthy v \<longrightarrow>
      start_script (Parsed pkg) = ''dev'') \<and>
   (get_prop pkg ''scripts'' = Inr (Some (JObj ss)) \<and> list_all plain_script ss \<longrightarrow>
      start_script (Parsed pkg) = spec_start_script (map fst ss) \<and>
      declared_scripts pkg = map fst ss)"
  using choose_plain [of pkg ss]
  by (auto simp: start_script_def read_start_script_def choose_start_script_def bind_err_def
      declared_scripts_def)

theorem start_script_priority_witness:
  "start_script (Parsed build_start_pkg) = ''start'' \<and>
   start_script (Parsed lint_test_pkg) = ''lint'' \<and>
   start_script (Parsed (JObj [(''name'', JStr ''app'')])) = ''dev'' \<and>
   start_script (Parsed (JObj [(''scripts'', JObj [])])) = ''dev'' \<and>
   start_script (Parsed (JObj [(''scripts'', JNull)])) = ''dev''"
proof -
  have a: "get_prop build_start_pkg ''scripts'' =
             Inr (Some (JObj [(''build'', JStr ''tsc''), (''start'', JStr ''node server.js'')]))"
    by (simp add: build_start_pkg_def js_object_def map_get_def)
  have a': "list_all plain_script [(''build'', JStr ''tsc''), (''start'', JStr ''node server.js'')]"
    by (simp add: plain_script_def is_array_index_def is_digit_def)
  have b: "get_prop lint_test_pkg ''scripts'' =
             Inr (Some (JObj [(''lint'', JStr ''eslint .''), (''test'', JStr ''jest'')]))"
    by (simp add: lint_test_pkg_def js_object_def map_get_def)
  have b': "list_all plain_script [(''lint'', JStr ''eslint .''), (''test'', JStr ''jest'')]"
    by (simp add: plain_script_def is_array_index_def is_digit_def)
  have c: "get_prop (JObj [(''name'', JStr ''app'')]) ''scripts'' = Inr None"
    by (simp add: js_object_def map_get_def)
  have d: "get_prop (JObj [(''scripts'', JObj [])]) ''scripts'' = Inr (Some (JObj []))"
    by (simp add: js_object_def map_get_def)
  have e: "get_prop (JObj [(''scripts'', JNull)]) ''scripts'' = Inr (Some JNull)"
    by (simp add: js_object_def map_get_def)
  from start_script_priority [of build_start_pkg JNull
         "[(''build'', JStr ''tsc''), (''start'', JStr ''node server.js'')]"]
       start_script_priority [of lint_test_pkg JNull
         "[(''lint'', JStr ''eslint .''), (''test'', JStr ''jest'')]"]
       start_script_priority [of "JObj [(''name'', JStr ''app'')]" JNull "[]"]
       start_script_priority [of "JObj [(''scripts'', JObj [])]" JNull "[]"]
       start_script_priority [of "JObj [(''scripts'', JNull)]" JNull]
       a a' b b' c d e
  show ?thesis by (simp add: spec_start_script_def)
qed

text \<open>
  The docker test sees a file name through \<^verbatim>\<open>toLowerCase\<close>: a name written with the Kelvin
  sign for its \<^verbatim>\<open>k\<close> counts as a Dockerfile.
\<close>

lemma toLowerCase_examples:
  "toLowerCase ''Dockerfile.DEV'' = ''dockerfile.dev''"
  "toLowerCase kelvin_dockerfile = ''dockerfile''"
  by (simp_all add: kelvin_dockerfile_def kelvin_sign_def capital_i_dot_def to_lower_def)

lemma kelvin_dockerfile_detected:
  "map_sum id analysis_type
     (analyzeProject \<lparr>root_listing = Some [kelvin_dockerfile], manifest = ReadFails\<rparr>) =
     Inr Docker"
proof -
  have "kelvin_dockerfile \<noteq> ''package.json''" and "kelvin_dockerfile \<noteq> ''requirements.txt''"
    by (simp_all add: kelvin_dockerfile_def kelvin_sign_def)
  then show ?thesis
    by (simp add: analyzeProject_def analyze_body_def toLowerCase_examples no_commands_def Let_def)
qed

section \<open>Properties of port detection\<close>

lemma killByPort_loop_eq:
  "killByPort_loop throws prt es (killed, s) =
     (killed \<or> list_ex (\<lambda>kr. port (heap s ! snd kr) = Some prt) es,
      s\<lparr>processes :=
           filter (\<lambda>kv. fst kv \<notin> fst ` set (filter (\<lambda>kr. port (heap s ! snd kr) = Some prt) es))
             (processes s),
         events := events s @
           map (\<lambda>kr. KillCalled (process (heap s ! snd kr)))
             (filter (\<lambda>kr. port (heap s ! snd kr) = Some prt) es)\<rparr>)"
proof (induction es arbitrary: killed s)
  case Nil
  show ?case by simp
next
  case (Cons kr es)
  obtain ident r where kr: "kr = (ident, r)" by (cases kr)
  show ?case
  proof (cases "port (heap s ! r) = Some prt")
    case True
    have "filter (\<lambda>kv. fst kv \<notin> fst ` set (filter (\<lambda>kr. port (heap s ! snd kr) = Some prt) es))
            (map_delete ident (processes s)) =
          filter (\<lambda>kv. fst kv \<noteq> ident \<and>
                  fst kv \<notin> fst ` set (filter (\<lambda>kr. port (heap s ! snd kr) = Some prt) es))
            (processes s)"
      by (simp add: map_delete_def conj_commute)
    with True kr show ?thesis
      by (simp add: Cons.IH try_kill_eq Let_def)
  next
    case False
    with kr show ?thesis by (simp add: Cons.IH)
  qed
qed

lemma find_tracked:
  assumes "wf_registry s" and "map_get (processes s) procId = Some r"
  shows "List.find (\<lambda>r. info_id (heap s ! r) = procId) (getAll s) = Some r"
proof -
  from assms(2) have mem: "(procId, r) \<in> set (processes s)"
    by (simp add: map_get_def map_of_SomeD)
  have "List.find (\<lambda>r. info_id (heap s ! r) = procId) (map snd es) = Some r"
    if "(procId, r) \<in> set es" and "distinct (map fst es)"
      and "\<forall>kr \<in> set es. info_id (heap s ! snd kr) = fst kr" for es
    using that by (induction es) force+
  with mem assms(1) show ?thesis
    by (simp add: getAll_def wf_registry_def list_all_iff)
qed

lemma detect_port_sets:
  assumes "wf_registry s" and "map_get (processes s) procId = Some r"
    and "falsy_port (port (heap s ! r))" and "port_match data = Some ds"
  shows "detect_port procId data s =
           s\<lparr>heap := (heap s)[r := (heap s ! r)\<lparr>port := Some (int (parseInt ds))\<rparr>]\<rparr>"
  using assms find_tracked [OF assms(1,2)] by (simp add: detect_port_def Let_def)

lemma wf_heap_update:
  assumes "wf_registry s" and "info_id obj = info_id (heap s ! r)"
  shows "wf_registry (s\<lparr>heap := (heap s)[r := obj]\<rparr>)"
proof -
  have "info_id ((heap s)[r := obj] ! i) = info_id (heap s ! i)" if "i < length (heap s)" for i
    using that assms(2) by (cases "i = r") simp_all
  with assms(1) show ?thesis
    by (simp add: wf_registry_def list_all_iff)
qed

lemma wf_detect_port: "wf_registry s \<Longrightarrow> wf_registry (detect_port procId data s)"
  by (simp add: detect_port_def Let_def wf_heap_update split: option.splits)

text \<open>
  The representation invariant holds in every state the registry's methods reach, and a
  process registered without a port is tracked, under the id returned, with no port.
\<close>

lemma wf_listeners_upd [simp]: "wf_registry (s\<lparr>listeners := ls\<rparr>) = wf_registry s"
  by (simp add: wf_registry_def)

lemma wf_unregister: "wf_registry s \<Longrightarrow> wf_registry (unregister ident s)"
  by (simp add: unregister_def wf_delete)

lemma wf_killAll: "wf_registry (killAll throws s)"
  by (simp add: killAll_def wf_registry_def)

lemma wf_killByPort: "wf_registry s \<Longrightarrow> wf_registry (snd (killByPort throws prt s))"
proof -
  assume wf: "wf_registry s"
  obtain killed t where kt: "killByPort_loop throws prt (processes s) (False, s) = (killed, t)"
    by (cases "killByPort_loop throws prt (processes s) (False, s)")
  then have "heap t = heap s" and "\<exists>P. processes t = filter P (processes s)"
    unfolding killByPort_loop_eq by auto
  with wf have "wf_registry t"
    by (auto simp: wf_registry_def list_all_iff distinct_map_filter)
  with kt show ?thesis by (simp add: killByPort_def)
qed

lemma wf_apply_registry_op: "wf_registry s \<Longrightarrow> wf_registry (apply_registry_op throws op s)"
  by (cases op)
     (simp_all add: wf_register wf_kill wf_killByPort wf_killAll wf_unregister subscribe_def
        unsubscribe_def)

lemma wf_fold_registry_ops:
  "wf_registry s \<Longrightarrow> wf_registry (fold (apply_registry_op throws) ops s)"
  by (induction ops arbitrary: s) (simp_all add: wf_apply_registry_op)

lemma wf_registry_after: "wf_registry (registry_after throws ops)"
  by (simp add: registry_after_def wf_fold_registry_ops wf_new)

lemma register_tracks:
  assumes "wf_registry s"
  shows "wf_registry (snd (register now p cmd None s)) \<and>
         map_get (processes (snd (register now p cmd None s))) (fst (register now p cmd None s)) =
           Some (length (heap s)) \<and>
         falsy_port (port (heap (snd (register now p cmd None s)) ! length (heap s))) \<and>
         process (heap (snd (register now p cmd None s)) ! length (heap s)) = p"
  using wf_register [OF assms, of now p cmd None]
  by (simp add: register_def Let_def map_get_def map_of_map_set falsy_port_def)

lemma port_match_examples:
  "port_match ''Local: http://localhost:3000/'' = Some ''3000''"
  "port_match ''ws://localhost:24678/'' = Some ''24678''"
  "port_match ''Local: http://localhost:5173/'' = Some ''5173''"
  by code_simp+

lemma parseInt_examples:
  "int (parseInt ''3000'') = 3000" "int (parseInt ''24678'') = 24678"
  "int (parseInt ''5173'') = 5173"
  by (simp_all add: parseInt_def digit_val_def)

text \<open>
  Claim C10 as stated fails for a chunk that matches the pattern after the port has been
  detected once: the guard \<^verbatim>\<open>!info.port\<close> keeps the first port, so the entry does not take
  the later number and \<^verbatim>\<open>killByPort\<close> with that number finds nothing.
\<close>

theorem port_detection_counterexample:
  "port_match ''ws://localhost:24678/'' = Some ''24678'' \<and>
   port (heap (detect_port ''proc-1'' ''ws://localhost:24678/''
                 (detect_port ''proc-1'' ''Local: http://localhost:3000/'' demo_registry)) ! 0)
     = Some 3000 \<and>
   fst (killByPort (\<lambda>p. False) 24678
          (detect_port ''proc-1'' ''ws://localhost:24678/''
             (detect_port ''proc-1'' ''Local: http://localhost:3000/'' demo_registry)))
     = False"
proof -
  have first: "detect_port ''proc-1'' ''Local: http://localhost:3000/'' demo_registry =
      demo_registry\<lparr>heap := [\<lparr>info_id = ''proc-1'', process = 7, command = ''npm run dev'',
                                   port = Some 3000, startedAt = 0\<rparr>]\<rparr>"
    by (simp add: detect_port_def port_match_examples parseInt_examples demo_registry_eq
        getAll_def falsy_port_def Let_def)
  have second: "detect_port ''proc-1'' ''ws://localhost:24678/''
      (demo_registry\<lparr>heap := [\<lparr>info_id = ''proc-1'', process = 7, command = ''npm run dev'',
                                    port = Some 3000, startedAt = 0\<rparr>]\<rparr>) =
      demo_registry\<lparr>heap := [\<lparr>info_id = ''proc-1'', process = 7, command = ''npm run dev'',
                                   port = Some 3000, startedAt = 0\<rparr>]\<rparr>"
    by (simp add: detect_port_def port_match_examples parseInt_examples demo_registry_eq
        getAll_def falsy_port_def Let_def)
  show ?thesis
    unfolding first second
    by (simp add: port_match_examples demo_registry_eq killByPort_def)
qed

lemma port_set_then_killed:
  assumes "wf_registry s" and "map_get (processes s) procId = Some r"
    and "falsy_port (port (heap s ! r))" and "port_match data = Some ds"
  shows "processes (detect_port procId data s) = processes s \<and>
         heap (detect_port procId data s) =
           (heap s)[r := (heap s ! r)\<lparr>port := Some (int (parseInt ds))\<rparr>] \<and>
         port (heap (detect_port procId data s) ! r) = Some (int (parseInt ds)) \<and>
         fst (killByPort throws (int (parseInt ds)) (detect_port procId data s)) = True \<and>
         KillCalled (process (heap s ! r)) \<in>
           set (events (snd (killByPort throws (int (parseInt ds)) (detect_port procId data s)))) \<and>
         procId \<notin> set (tracked_ids
           (snd (killByPort throws (int (parseInt ds)) (detect_port procId data s))))"
proof -
  let ?n = "int (parseInt ds)"
  let ?s' = "detect_port procId data s"
  let ?hit = "\<lambda>kr. port (heap ?s' ! snd kr) = Some ?n"
  have s': "?s' = s\<lparr>heap := (heap s)[r := (heap s ! r)\<lparr>port := Some ?n\<rparr>]\<rparr>"
    using assms by (rule detect_port_sets)
  from assms(2) have mem: "(procId, r) \<in> set (processes s)"
    by (simp add: map_get_def map_of_SomeD)
  with assms(1) have r: "r < length (heap s)"
    by (auto simp: wf_registry_def list_all_iff)
  have prt: "port (heap ?s' ! r) = Some ?n"
    using r by (simp add: s')
  have proc: "process (heap ?s' ! r) = process (heap s ! r)"
    using r by (simp add: s')
  have hit: "(procId, r) \<in> set (filter ?hit (processes ?s'))"
    using mem prt by (simp add: s')
  have wf': "wf_registry ?s'" using assms(1) by (rule wf_detect_port)
  obtain killed t where kt: "killByPort_loop throws ?n (processes ?s') (False, ?s') = (killed, t)"
    by (cases "killByPort_loop throws ?n (processes ?s') (False, ?s')")
  have "list_ex ?hit (processes ?s')"
    unfolding list_ex_iff using hit by (intro bexI [of _ "(procId, r)"]) simp_all
  with kt have killed: "killed"
    unfolding killByPort_loop_eq by simp
  from kt have t_procs: "processes t =
      filter (\<lambda>kv. fst kv \<notin> fst ` set (filter ?hit (processes ?s'))) (processes ?s')"
    and t_events: "events t = events ?s' @
      map (\<lambda>kr. KillCalled (process (heap ?s' ! snd kr))) (filter ?hit (processes ?s'))"
    and t_heap: "heap t = heap ?s'"
    unfolding killByPort_loop_eq by auto
  have res: "killByPort throws ?n ?s' = (True, notify t)"
    using kt killed by (simp add: killByPort_def)
  have "KillCalled (process (heap ?s' ! snd (procId, r))) \<in> set (events t)"
    unfolding t_events using hit by (intro UnI2 imageI | simp only: set_append set_map)+
  then have ev: "KillCalled (process (heap s ! r)) \<in> set (events (notify t))"
    using proc by (simp add: notify_def)
  have "procId \<notin> fst ` set (processes t)"
    unfolding t_procs using hit by force
  moreover have "wf_registry (notify t)"
    using wf' t_procs t_heap by (auto simp: wf_registry_def list_all_iff distinct_map_filter)
  ultimately have gone: "procId \<notin> set (tracked_ids (notify t))"
    by (simp add: wf_tracked_ids)
  show ?thesis
    using prt res ev gone by (simp add: s')
qed

lemma detect_port_keeps:
  assumes "wf_registry s" and "map_get (processes s) procId = Some r"
    and "\<not> falsy_port (port (heap s ! r))"
  shows "detect_port procId data s = s"
  using assms(3) find_tracked [OF assms(1,2)]
  by (simp add: detect_port_def Let_def split: option.splits)

lemma served_registry_eq:
  "served_registry =
     demo_registry\<lparr>heap := [\<lparr>info_id = ''proc-1'', process = 7, command = ''npm run dev'',
                                  port = Some 5173, startedAt = 0\<rparr>]\<rparr>"
  by (simp add: served_registry_def detect_port_def port_match_examples parseInt_examples
      demo_registry_eq getAll_def falsy_port_def Let_def)

text \<open>
  Claim C10, amended. When the dev server's entry is still in the registry and has no port
  yet (\<^verbatim>\<open>undefined\<close> or 0), a chunk that matches the port pattern sets the port field of
  that entry, in place, to the number captured (the table itself is unchanged: the write
  goes through the reference \<^verbatim>\<open>getAll()\<close> returned). A \<^verbatim>\<open>killByPort\<close> with that number
  then calls \<^verbatim>\<open>kill()\<close> on the process, removes the entry and returns true, whether or
  not \<^verbatim>\<open>kill()\<close> throws. When the entry already has a port, every chunk, matching or not,
  leaves the registry as it is, and so the port unchanged.
\<close>

theorem port_detection_enables_killByPort:
  assumes "wf_registry s" and "map_get (processes s) procId = Some r"
  shows "(falsy_port (port (heap s ! r)) \<and> port_match data = Some ds \<longrightarrow>
            processes (detect_port procId data s) = processes s \<and>
            heap (detect_port procId data s) =
              (heap s)[r := (heap s ! r)\<lparr>port := Some (int (parseInt ds))\<rparr>] \<and>
            port (heap (detect_port procId data s) ! r) = Some (int (parseInt ds)) \<and>
            fst (killByPort throws (int (parseInt ds)) (detect_port procId data s)) = True \<and>
            KillCalled (process (heap s ! r)) \<in>
              set (events (snd (killByPort throws (int (parseInt ds)) (detect_port procId data s)))) \<and>
            procId \<notin> set (tracked_ids
              (snd (killByPort throws (int (parseInt ds)) (detect_port procId data s))))) \<and>
         (\<not> falsy_port (port (heap s ! r)) \<longrightarrow>
            detect_port procId data s = s \<and>
            port (heap (detect_port procId data s) ! r) = port (heap s ! r))"
proof (intro conjI impI)
  assume "\<not> falsy_port (port (heap s ! r))"
  then show "detect_port procId data s = s"
    by (rule detect_port_keeps [OF assms])
  then show "port (heap (detect_port procId data s) ! r) = port (heap s ! r)"
    by simp
qed (use port_set_then_killed [OF assms, of data ds throws] in blast)+

theorem port_detection_enables_killByPort_witness:
  "wf_registry demo_registry \<and> map_get (processes demo_registry) ''proc-1'' = Some 0 \<and>
   falsy_port (port (heap demo_registry ! 0)) \<and>
   port_match ''Local: http://localhost:5173/'' = Some ''5173'' \<and>
   port (heap (detect_port ''proc-1'' ''Local: http://localhost:5173/'' demo_registry) ! 0)
     = Some 5173 \<and>
   fst (killByPort (\<lambda>p. True) 5173
          (detect_port ''proc-1'' ''Local: http://localhost:5173/'' demo_registry)) = True \<and>
   ''proc-1'' \<notin> set (tracked_ids (snd (killByPort (\<lambda>p. True) 5173
          (detect_port ''proc-1'' ''Local: http://localhost:5173/'' demo_registry)))) \<and>
   wf_registry served_registry \<and> map_get (processes served_registry) ''proc-1'' = Some 0 \<and>
   \<not> falsy_port (port (heap served_registry ! 0)) \<and>
   port_match ''ws://localhost:24678/'' = Some ''24678'' \<and>
   detect_port ''proc-1'' ''ws://localhost:24678/'' served_registry = served_registry \<and>
   port (heap (detect_port ''proc-1'' ''ws://localhost:24678/'' served_registry) ! 0) = Some 5173"
proof -
  have wf: "wf_registry demo_registry"
    by (simp add: demo_registry_eq wf_registry_def)
  have tracked: "map_get (processes demo_registry) ''proc-1'' = Some 0"
    by (simp add: demo_registry_eq map_get_def)
  have noport: "falsy_port (port (heap demo_registry ! 0))"
    by (simp add: demo_registry_eq falsy_port_def)
  have m: "port_match ''Local: http://localhost:5173/'' = Some ''5173''"
    by (rule port_match_examples)
  have n: "int (parseInt ''5173'') = 5173"
    by (rule parseInt_examples)
  have wf2: "wf_registry served_registry"
    by (simp add: served_registry_eq demo_registry_eq wf_registry_def)
  have tracked2: "map_get (processes served_registry) ''proc-1'' = Some 0"
    by (simp add: served_registry_eq demo_registry_eq map_get_def)
  have port2: "port (heap served_registry ! 0) = Some 5173"
    by (simp add: served_registry_eq demo_registry_eq)
  then have set2: "\<not> falsy_port (port (heap served_registry ! 0))"
    by (simp add: falsy_port_def)
  have m2: "port_match ''ws://localhost:24678/'' = Some ''24678''"
    by (rule port_match_examples)
  note first = port_detection_enables_killByPort
                 [OF wf tracked, of "''Local: http://localhost:5173/''" "''5173''" "\<lambda>p. True",
                  unfolded n]
  note later = port_detection_enables_killByPort
                 [OF wf2 tracked2, of "''ws://localhost:24678/''" "''24678''" "\<lambda>p. True"]
  from later set2
  have keep: "detect_port ''proc-1'' ''ws://localhost:24678/'' served_registry = served_registry"
    and "port (heap (detect_port ''proc-1'' ''ws://localhost:24678/'' served_registry) ! 0) =
           port (heap served_registry ! 0)"
    by blast+
  then have kept: "port (heap (detect_port ''proc-1'' ''ws://localhost:24678/'' served_registry) ! 0)
                     = Some 5173"
    by (simp only: port2)
  from first keep kept wf tracked noport m wf2 tracked2 set2 m2 show ?thesis by blast
qed

section \<open>Properties of the bootstrap orchestrator\<close>

lemmas preview_step_defs = act_def writeToTerminal_def setCurrentStep_def

text \<open>
  Claim C1. In every state of the component, and so at every value of the step index, the
  \<^verbatim>\<open>server-ready\<close> listener sets the preview URL to the notified URL, sets
  \<^verbatim>\<open>isSetupComplete\<close> and the \<^verbatim>\<open>ready\<close> flag, and clears \<^verbatim>\<open>isSetupInProgress\<close> and the
  \<^verbatim>\<open>starting\<close> flag. It does not read or change the step index.
\<close>

theorem server_ready_wins:
  "previewUrl (on_server_ready prt url s) = url \<and>
   isSetupComplete (on_server_ready prt url s) \<and>
   \<not> isSetupInProgress (on_server_ready prt url s) \<and>
   ready (loadingState (on_server_ready prt url s)) \<and>
   \<not> starting (loadingState (on_server_ready prt url s)) \<and>
   currentStep (on_server_ready prt url s) = currentStep s"
  by (simp add: on_server_ready_def preview_step_defs Let_def)

lemma same_but_trace_refl [simp]: "same_but_trace s s"
  by (simp add: same_but_trace_def)

lemma same_but_trace_trans:
  "same_but_trace s s' \<Longrightarrow> same_but_trace s' s'' \<Longrightarrow> same_but_trace s s''"
proof -
  assume a: "same_but_trace s s'" and b: "same_but_trace s' s''"
  from b have "(s''\<lparr>trace := trace s'\<rparr>)\<lparr>trace := trace s\<rparr> = s'\<lparr>trace := trace s\<rparr>"
    unfolding same_but_trace_def by (rule arg_cong)
  with a show ?thesis by (simp add: same_but_trace_def)
qed

lemma same_but_trace_upd [simp]: "same_but_trace s (s\<lparr>trace := t\<rparr>)"
  by (simp add: same_but_trace_def)

lemma same_but_trace_act [simp]:
  "same_but_trace s (act a s')= same_but_trace s s'"
  "same_but_trace s (writeToTerminal m s') = same_but_trace s s'"
  by (simp_all add: same_but_trace_def preview_step_defs)

lemma same_but_trace_fields:
  assumes "same_but_trace s s'"
  shows "currentStep s' = currentStep s" and "setupError s' = setupError s"
    and "loadingState s' = loadingState s" and "isSetupComplete s' = isSetupComplete s"
    and "isSetupInProgress s' = isSetupInProgress s" and "pm s' = pm s"
    and "previewUrl s' = previewUrl s" and "serverProcessIdRef s' = serverProcessIdRef s"
proof -
  from assms have eq: "s = s'\<lparr>trace := trace s\<rparr>"
    by (simp add: same_but_trace_def)
  show "currentStep s' = currentStep s" by (subst eq) simp
  show "setupError s' = setupError s" by (subst eq) simp
  show "loadingState s' = loadingState s" by (subst eq) simp
  show "isSetupComplete s' = isSetupComplete s" by (subst eq) simp
  show "isSetupInProgress s' = isSetupInProgress s" by (subst eq) simp
  show "pm s' = pm s" by (subst eq) simp
  show "previewUrl s' = previewUrl s" by (subst eq) simp
  show "serverProcessIdRef s' = serverProcessIdRef s" by (subst eq) simp
qed

lemma milestones_simps [simp]:
  "milestones (writeToTerminal m s) = milestones s"
  "milestones (act (Write m) s) = milestones s"
  "milestones (act (FsRm f) s) = milestones s"
  "milestones (act MountFiles s) = milestones s"
  "milestones (act TimeoutKill s) = milestones s"
  "milestones (act (Step n) s) = milestones s @ [Step n]"
  "milestones (setCurrentStep n s) = milestones s @ [Step n]"
  "milestones (act (Sleep ms) s) = milestones s @ [Sleep ms]"
  "milestones (act (SpawnTimed cmd args ms env) s) = milestones s @ [SpawnTimed cmd args ms env]"
  "milestones (act (SpawnStart cmd args) s) = milestones s @ [SpawnStart cmd args]"
  by (simp_all add: milestones_def preview_step_defs)

lemma milestones_other_fields [simp]:
  "milestones (s\<lparr>loadingState := l\<rparr>) = milestones s"
  "milestones (s\<lparr>currentStep := n\<rparr>) = milestones s"
  "milestones (s\<lparr>setupError := e\<rparr>) = milestones s"
  "milestones (s\<lparr>isSetupInProgress := b\<rparr>) = milestones s"
  "milestones (s\<lparr>isSetupComplete := b\<rparr>) = milestones s"
  "milestones (s\<lparr>pm := p\<rparr>) = milestones s"
  "milestones (s\<lparr>serverProcessIdRef := r\<rparr>) = milestones s"
  by (simp_all add: milestones_def)

lemma fold_write:
  "fold (\<lambda>c. writeToTerminal (MsgOutput c)) chunks s =
     s\<lparr>trace := trace s @ map (\<lambda>c. Write (MsgOutput c)) chunks\<rparr>"
  by (induction chunks arbitrary: s) (simp_all add: preview_step_defs)

lemma milestones_fold_write [simp]:
  "milestones (fold (\<lambda>c. writeToTerminal (MsgOutput c)) chunks s) = milestones s"
  by (simp add: fold_write milestones_def filter_empty_conv)

lemma same_fold_write [simp]:
  "same_but_trace s (fold (\<lambda>c. writeToTerminal (MsgOutput c)) chunks s') = same_but_trace s s'"
  by (simp add: fold_write same_but_trace_def)

lemma run_milestones:
  "milestones (snd (runProcessWithTimeout outcome cmd args ms env s)) =
     milestones s @ [SpawnTimed cmd args ms env]"
  by (cases outcome) (simp_all add: runProcessWithTimeout_def Let_def)

lemma run_same: "same_but_trace s (snd (runProcessWithTimeout outcome cmd args ms env s))"
  by (cases outcome) (simp_all add: runProcessWithTimeout_def Let_def)

lemma run_result:
  "fst (runProcessWithTimeout outcome cmd args ms env s) =
     (case outcome of
        SpawnRejects msg \<Rightarrow> Inl msg
      | Exits chunks exitCode \<Rightarrow> Inr (exitCode, concat chunks)
      | TimesOut chunks \<Rightarrow> Inl (timeout_message ms))"
  by (cases outcome) (simp_all add: runProcessWithTimeout_def Let_def)


lemma retry_wait_props [simp]:
  "same_but_trace s (retry_wait attempt s') = same_but_trace s s'"
  "milestones (retry_wait attempt s) =
     milestones s @ (if attempt < MAX_RETRIES then [Sleep 1000] else [])"
  by (simp_all add: retry_wait_def same_but_trace_def preview_step_defs milestones_def)

lemma install_loop_done: "install_loop outcome cmd 3 s = (False, s)"
  by (subst install_loop.simps) (simp add: MAX_RETRIES_def)

lemma install_loop_step:
  assumes "attempt \<le> MAX_RETRIES"
  shows "install_loop outcome cmd attempt s =
     (let s2 = writeToTerminal (MsgRunning (fst cmd) (snd cmd))
                 (writeToTerminal (MsgInstallAttempt attempt MAX_RETRIES) s);
          r = runProcessWithTimeout (outcome attempt) (fst cmd) (snd cmd) 120000 (Some ciEnv) s2
      in if install_ok (outcome attempt) then (True, writeToTerminal MsgInstalled (snd r))
         else install_loop outcome cmd (attempt + 1)
                (retry_wait attempt
                   (writeToTerminal
                      (case fst r of Inr res \<Rightarrow> MsgInstallExit (fst res)
                                   | Inl msg \<Rightarrow> MsgInstallFailed msg) (snd r))))"
  using assms
  by (subst install_loop.simps, cases "outcome attempt")
     (simp_all add: Let_def runProcessWithTimeout_def split: prod.splits)

lemma install_loop_last:
  "fst (install_loop outcome cmd 2 s) = install_ok (outcome 2) \<and>
   same_but_trace s (snd (install_loop outcome cmd 2 s)) \<and>
   milestones (snd (install_loop outcome cmd 2 s)) =
     milestones s @ [SpawnTimed (fst cmd) (snd cmd) 120000 (Some ciEnv)]"
proof -
  have le: "(2::nat) \<le> MAX_RETRIES" by (simp add: MAX_RETRIES_def)
  have same: "same_but_trace s (snd (runProcessWithTimeout (outcome 2) (fst cmd) (snd cmd) 120000
      (Some ciEnv) (writeToTerminal (MsgRunning (fst cmd) (snd cmd))
         (writeToTerminal (MsgInstallAttempt 2 MAX_RETRIES) s))))"
    by (rule same_but_trace_trans [OF _ run_same]) simp
  show ?thesis
    using same
    by (simp add: install_loop_step [OF le] install_loop_done Let_def run_milestones
        MAX_RETRIES_def)
qed

lemma install_loop_first:
  "fst (install_loop outcome cmd 1 s) = (install_ok (outcome 1) \<or> install_ok (outcome 2)) \<and>
   same_but_trace s (snd (install_loop outcome cmd 1 s)) \<and>
   milestones (snd (install_loop outcome cmd 1 s)) =
     milestones s @
       (if install_ok (outcome 1) then [SpawnTimed (fst cmd) (snd cmd) 120000 (Some ciEnv)]
        else [SpawnTimed (fst cmd) (snd cmd) 120000 (Some ciEnv), Sleep 1000,
              SpawnTimed (fst cmd) (snd cmd) 120000 (Some ciEnv)])"
proof -
  have le: "(1::nat) \<le> MAX_RETRIES" by (simp add: MAX_RETRIES_def)
  let ?s2 = "writeToTerminal (MsgRunning (fst cmd) (snd cmd))
               (writeToTerminal (MsgInstallAttempt 1 MAX_RETRIES) s)"
  let ?r = "runProcessWithTimeout (outcome 1) (fst cmd) (snd cmd) 120000 (Some ciEnv) ?s2"
  have same: "same_but_trace s (snd ?r)"
    by (rule same_but_trace_trans [OF _ run_same]) simp
  note step = install_loop_step [OF le, of outcome cmd s, unfolded one_add_one Let_def]
  show ?thesis
  proof (cases "install_ok (outcome 1)")
    case True
    have ms: "milestones (snd ?r) = milestones s @ [SpawnTimed (fst cmd) (snd cmd) 120000 (Some ciEnv)]"
      by (simp add: run_milestones)
    from True same ms show ?thesis
      unfolding step by simp
  next
    case False
    let ?s4 = "retry_wait 1 (writeToTerminal
                 (case fst ?r of Inr res \<Rightarrow> MsgInstallExit (fst res)
                               | Inl msg \<Rightarrow> MsgInstallFailed msg) (snd ?r))"
    have loop: "install_loop outcome cmd 1 s = install_loop outcome cmd 2 ?s4"
      unfolding step using False by (simp only: if_False)
    have same4: "same_but_trace s ?s4"
      using same by (simp only: retry_wait_props same_but_trace_act)
    have "milestones ?s4 = milestones (snd ?r) @ [Sleep 1000]"
      by (simp only: retry_wait_props milestones_simps) (simp add: MAX_RETRIES_def)
    then have ms4: "milestones ?s4 =
        milestones s @ [SpawnTimed (fst cmd) (snd cmd) 120000 (Some ciEnv), Sleep 1000]"
      by (simp add: run_milestones)
    from install_loop_last [of outcome cmd ?s4]
    have a: "fst (install_loop outcome cmd 2 ?s4) = install_ok (outcome 2)"
      and b: "same_but_trace ?s4 (snd (install_loop outcome cmd 2 ?s4))"
      and c: "milestones (snd (install_loop outcome cmd 2 ?s4)) =
                milestones ?s4 @ [SpawnTimed (fst cmd) (snd cmd) 120000 (Some ciEnv)]"
      by blast+
    from same4 b have d: "same_but_trace s (snd (install_loop outcome cmd 2 ?s4))"
      by (rule same_but_trace_trans)
    show ?thesis
      unfolding loop c ms4 using False a d by simp
  qed
qed

lemma remove_lockfiles_props:
  "same_but_trace s (remove_lockfiles ok fs s) \<and>
   milestones (remove_lockfiles ok fs s) = milestones s"
proof (induction fs arbitrary: s)
  case Nil
  show ?case by simp
next
  case (Cons f fs)
  let ?s1 = "if ok f then writeToTerminal (MsgRemovedLockfile f) (act (FsRm f) s)
             else act (FsRm f) s"
  have "same_but_trace s ?s1" and "milestones ?s1 = milestones s" by simp_all
  with Cons [of ?s1] show ?case
    by (auto intro: same_but_trace_trans)
qed

lemma log_analysis_props:
  "same_but_trace s (log_analysis analysis s) \<and>
   milestones (log_analysis analysis s) = milestones s"
  by (simp add: log_analysis_def Let_def split: option.splits)


lemma analyzeProject_no_pre_install:
  "analyzeProject fs = Inr a \<Longrightarrow> preInstallCommands a = []"
  by (auto simp: analyzeProject_def analyze_body_def no_commands_def Let_def
      split: option.splits list.splits sum.splits if_splits)

lemma install_phase_props:
  assumes "preInstallCommands a = []"
  shows "same_but_trace s (install_phase sb a s) \<and>
         milestones (install_phase sb a s) =
           milestones s @ (case installCommand a of None \<Rightarrow> []
                           | Some cmd \<Rightarrow> spec_install_attempts sb cmd)"
proof (cases "installCommand a")
  case None
  then show ?thesis by (simp add: install_phase_def)
next
  case (Some cmd)
  let ?s1 = "if shouldRemoveLockfile a then remove_lockfiles (rm_succeeds sb) lockFiles s else s"
  have s1: "same_but_trace s ?s1" "milestones ?s1 = milestones s"
    using remove_lockfiles_props [of s "rm_succeeds sb" lockFiles] by simp_all
  obtain ok s3 where loop: "install_loop (install_run sb) cmd 1 ?s1 = (ok, s3)"
    by (cases "install_loop (install_run sb) cmd 1 ?s1")
  from install_loop_first [of "install_run sb" cmd ?s1] loop
  have s3: "same_but_trace ?s1 s3"
    and ms3: "milestones s3 = milestones ?s1 @ spec_install_attempts sb cmd"
    by (simp_all add: spec_install_attempts_def)
  from s1(1) s3 have "same_but_trace s s3" by (rule same_but_trace_trans)
  moreover have "install_phase sb a s =
      (if ok then s3 else writeToTerminal MsgStartingAnyway (writeToTerminal MsgMayNotInstalled s3))"
    using Some assms loop by (simp add: install_phase_def Let_def)
  ultimately show ?thesis
    using Some ms3 s1(2) by simp
qed

lemma start_phase_props:
  "milestones (snd (start_phase sb a s)) =
     milestones s @ (case startCommand a of None \<Rightarrow> []
                     | Some cmd \<Rightarrow> [SpawnStart (fst cmd) (snd cmd)]) \<and>
   currentStep (snd (start_phase sb a s)) = currentStep s \<and>
   setupError (snd (start_phase sb a s)) = setupError s"
  by (auto simp: start_phase_def Let_def preview_step_defs milestones_def
      split: option.splits sum.splits prod.splits)

lemma start_phase_started:
  assumes "startCommand a = Some cmd" and "start_spawn sb = Inr p"
  shows "fst (start_phase sb a s) = Inr () \<and>
         isSetupInProgress (snd (start_phase sb a s)) = isSetupInProgress s \<and>
         isSetupComplete (snd (start_phase sb a s)) = isSetupComplete s \<and>
         loadingState (snd (start_phase sb a s)) = loadingState s \<and>
         serverProcessIdRef (snd (start_phase sb a s)) =
           Some (fst (register (clock sb) p (fst cmd @ '' '' @ join '' '' (snd cmd)) None (pm s))) \<and>
         pm (snd (start_phase sb a s)) =
           snd (register (clock sb) p (fst cmd @ '' '' @ join '' '' (snd cmd)) None (pm s))"
  using assms
  by (simp add: start_phase_def Let_def preview_step_defs split: prod.splits)

lemma setup_body_analyzed:
  assumes "transform_result sb = Inr u" and "mount_result sb = Inr v"
    and "analyzeProject (mounted_fs sb) = Inr a"
  shows "\<exists>s7. setup_body sb s0 =
           start_phase sb a
             (setCurrentStep 5
                ((install_phase sb a s7)
                   \<lparr>loadingState := (loadingState (install_phase sb a s7))
                                       \<lparr>installing := False, starting := True\<rparr>\<rparr>)) \<and>
         milestones s7 = milestones s0 @ [Step 1, Step 2, Step 3, Step 4] \<and>
         setupError s7 = setupError s0 \<and>
         isSetupInProgress s7 = isSetupInProgress s0 \<and>
         isSetupComplete s7 = isSetupComplete s0"
proof -
  let ?s1 = "if existing_manifest sb then writeToTerminal MsgReanalyzing s0 else s0"
  let ?s2 = "writeToTerminal MsgTransforming
               (setCurrentStep 1 (?s1\<lparr>loadingState := (loadingState ?s1)\<lparr>transforming := True\<rparr>\<rparr>))"
  let ?s3 = "act MountFiles (writeToTerminal MsgMounting (setCurrentStep 2
               (?s2\<lparr>loadingState := (loadingState ?s2)\<lparr>transforming := False, mounting := True\<rparr>\<rparr>)))"
  let ?s4 = "writeToTerminal MsgMounted ?s3"
  let ?s5 = "writeToTerminal MsgAnalyzing (setCurrentStep 3
               (?s4\<lparr>loadingState := (loadingState ?s4)\<lparr>mounting := False, analyzing := True\<rparr>\<rparr>))"
  let ?s6 = "log_analysis a ?s5"
  let ?s7 = "setCurrentStep 4
               (?s6\<lparr>loadingState := (loadingState ?s6)\<lparr>analyzing := False, installing := True\<rparr>\<rparr>)"
  have body: "setup_body sb s0 =
      start_phase sb a
        (setCurrentStep 5
           ((install_phase sb a ?s7)
              \<lparr>loadingState := (loadingState (install_phase sb a ?s7))
                                  \<lparr>installing := False, starting := True\<rparr>\<rparr>))"
    using assms by (simp add: setup_body_def Let_def)
  have ms5: "milestones ?s5 = milestones s0 @ [Step 1, Step 2, Step 3]"
    by simp
  have f5: "setupError ?s5 = setupError s0" "isSetupInProgress ?s5 = isSetupInProgress s0"
    "isSetupComplete ?s5 = isSetupComplete s0"
    by (simp_all add: preview_step_defs)
  from log_analysis_props [of ?s5 a]
  have same6: "same_but_trace ?s5 ?s6" and ms6: "milestones ?s6 = milestones ?s5"
    by blast+
  have ms7: "milestones ?s7 = milestones s0 @ [Step 1, Step 2, Step 3, Step 4]"
    using ms6 ms5 by simp
  have f7: "setupError ?s7 = setupError s0" "isSetupInProgress ?s7 = isSetupInProgress s0"
    "isSetupComplete ?s7 = isSetupComplete s0"
    using same_but_trace_fields [OF same6] f5 by (simp_all add: preview_step_defs)
  from body ms7 f7 show ?thesis by blast
qed


lemma setupContainer_runs:
  assumes "\<not> isSetupComplete s" and "\<not> isSetupInProgress s"
  shows "milestones (setupContainer (Some sb) s) =
           milestones (snd (setup_body sb (s\<lparr>isSetupInProgress := True, setupError := None\<rparr>))) \<and>
         currentStep (setupContainer (Some sb) s) =
           currentStep (snd (setup_body sb (s\<lparr>isSetupInProgress := True, setupError := None\<rparr>)))"
  using assms
  by (simp add: setupContainer_def preview_step_defs milestones_def split: prod.splits sum.splits)

lemma setup_body_first_step:
  "\<exists>rest. milestones (snd (setup_body sb s0)) = milestones s0 @ Step 1 # rest"
proof (cases "transform_result sb")
  case (Inl msg)
  then show ?thesis by (simp add: setup_body_def Let_def)
next
  case transformed: (Inr u)
  show ?thesis
  proof (cases "mount_result sb")
    case (Inl msg)
    with transformed show ?thesis by (simp add: setup_body_def Let_def)
  next
    case mounted: (Inr v)
    obtain a where a: "analyzeProject (mounted_fs sb) = Inr a"
      using analyzeProject_total by blast
    from setup_body_analyzed [OF transformed mounted a, of s0]
    obtain s7 where body: "setup_body sb s0 =
        start_phase sb a
          (setCurrentStep 5
             ((install_phase sb a s7)
                \<lparr>loadingState := (loadingState (install_phase sb a s7))
                                    \<lparr>installing := False, starting := True\<rparr>\<rparr>))"
      and ms7: "milestones s7 = milestones s0 @ [Step 1, Step 2, Step 3, Step 4]"
      by blast
    from install_phase_props [OF analyzeProject_no_pre_install [OF a], of s7 sb]
    have "milestones (install_phase sb a s7) =
            milestones s7 @ (case installCommand a of None \<Rightarrow> []
                             | Some cmd \<Rightarrow> spec_install_attempts sb cmd)"
      by blast
    with ms7 show ?thesis
      unfolding body by (simp add: start_phase_props)
  qed
qed

text \<open>
  Claim C3. When a run is in progress or complete, \<^verbatim>\<open>setupContainer\<close> returns the state
  as it is: no step is taken and nothing is written. A forced reset clears both flags and
  sets the step index to 0, and a run in a sandbox after it is let through: the next thing
  done to the step index after the reset's \<^verbatim>\<open>setCurrentStep(0)\<close> is to set it to 1, the
  first step.
\<close>

theorem setup_guard_and_reset:
  "(isSetupComplete s \<or> isSetupInProgress s \<longrightarrow> setupContainer inst s = s) \<and>
   \<not> isSetupComplete (forceResetup_effect True s) \<and>
   \<not> isSetupInProgress (forceResetup_effect True s) \<and>
   currentStep (forceResetup_effect True s) = 0 \<and>
   milestones (forceResetup_effect True s) = milestones s @ [Step 0] \<and>
   (\<exists>rest. milestones (setupContainer (Some sb) (forceResetup_effect True s)) =
            milestones s @ Step 0 # Step 1 # rest)"
proof -
  let ?r = "forceResetup_effect True s"
  have flags: "\<not> isSetupComplete ?r" "\<not> isSetupInProgress ?r" "currentStep ?r = 0"
    by (simp_all add: forceResetup_effect_def preview_step_defs)
  have ms: "milestones ?r = milestones s @ [Step 0]"
    by (simp add: forceResetup_effect_def preview_step_defs milestones_def)
  have guard: "isSetupComplete s \<or> isSetupInProgress s \<longrightarrow> setupContainer inst s = s"
    by (simp add: setupContainer_def split: option.splits)
  from setup_body_first_step [of sb "?r\<lparr>isSetupInProgress := True, setupError := None\<rparr>"]
  obtain rest where
    "milestones (snd (setup_body sb (?r\<lparr>isSetupInProgress := True, setupError := None\<rparr>))) =
       milestones s @ Step 0 # Step 1 # rest"
    using ms by auto
  with setupContainer_runs [OF flags(1,2), of sb]
  have "\<exists>rest. milestones (setupContainer (Some sb) ?r) = milestones s @ Step 0 # Step 1 # rest"
    by simp
  with flags ms guard show ?thesis by blast
qed

theorem setup_guard_and_reset_witness:
  "isSetupInProgress (initial_preview\<lparr>isSetupInProgress := True, currentStep := 4\<rparr>) \<and>
   setupContainer (Some failing_install_sandbox)
     (initial_preview\<lparr>isSetupInProgress := True, currentStep := 4\<rparr>) =
     initial_preview\<lparr>isSetupInProgress := True, currentStep := 4\<rparr> \<and>
   currentStep (forceResetup_effect True
     (initial_preview\<lparr>isSetupInProgress := True, currentStep := 4\<rparr>)) = 0 \<and>
   (\<exists>rest. milestones (setupContainer (Some failing_install_sandbox)
              (forceResetup_effect True
                 (initial_preview\<lparr>isSetupInProgress := True, currentStep := 4\<rparr>))) =
            Step 0 # Step 1 # rest)"
proof -
  have ms: "milestones (initial_preview\<lparr>isSetupInProgress := True, currentStep := 4\<rparr>) = []"
    by (simp add: milestones_def initial_preview_def)
  from setup_guard_and_reset
         [of "initial_preview\<lparr>isSetupInProgress := True, currentStep := 4\<rparr>"
             "Some failing_install_sandbox" failing_install_sandbox]
  show ?thesis unfolding ms by simp
qed

text \<open>
  Claim C2. In a run that gets past transforming and mounting a tree with a
  \<^verbatim>\<open>package.json\<close>, the steps 1 to 4 are followed by the install attempts exactly as the
  specification words them (the install command under a timeout of 120000 ms with the CI
  environment; after a first attempt that fails by exit code, timeout or rejected spawn, a
  wait of 1000 ms and one more attempt; never a third), then by step 5 and the spawn of
  \<^verbatim>\<open>npm run <script>\<close>. The step index ends at 5, and \<^verbatim>\<open>setupError\<close> is set only when
  the spawn of the start command fails: failed installs never lead to the error state.
\<close>

theorem install_retries_then_starts:
  assumes "transform_result sb = Inr ()" and "mount_result sb = Inr ()"
    and "root_listing (mounted_fs sb) = Some files" and "''package.json'' \<in> set files"
    and "\<not> isSetupComplete s" and "\<not> isSetupInProgress s"
  shows "milestones (setupContainer (Some sb) s) =
           milestones s @ [Step 1, Step 2, Step 3, Step 4] @
             spec_install_attempts sb (getInstallCommand (detectPackageManager files)) @
             [Step 5, SpawnStart ''npm'' [''run'', start_script (manifest (mounted_fs sb))]] \<and>
         currentStep (setupContainer (Some sb) s) = 5 \<and>
         setupError (setupContainer (Some sb) s) =
           (case start_spawn sb of Inl msg \<Rightarrow> Some msg | Inr p \<Rightarrow> None) \<and>
         isSetupInProgress (setupContainer (Some sb) s) =
           (case start_spawn sb of Inl msg \<Rightarrow> False | Inr p \<Rightarrow> True)"
proof -
  let ?s0 = "s\<lparr>isSetupInProgress := True, setupError := None\<rparr>"
  let ?cmd = "getInstallCommand (detectPackageManager files)"
  let ?start = "(''npm'', [''run'', start_script (manifest (mounted_fs sb))])"
  obtain a where a: "analyzeProject (mounted_fs sb) = Inr a"
    and inst: "installCommand a = Some ?cmd" and start: "startCommand a = Some ?start"
    using assms(3,4) by (simp add: analyzeProject_def analyze_body_def Let_def)
  from setup_body_analyzed [OF assms(1,2) a, of ?s0]
  obtain s7 where body: "setup_body sb ?s0 =
        start_phase sb a
          (setCurrentStep 5
             ((install_phase sb a s7)
                \<lparr>loadingState := (loadingState (install_phase sb a s7))
                                    \<lparr>installing := False, starting := True\<rparr>\<rparr>))"
    and ms7: "milestones s7 = milestones s @ [Step 1, Step 2, Step 3, Step 4]"
    and f7: "setupError s7 = None" "isSetupInProgress s7"
    by (auto simp: milestones_def)
  let ?s8 = "install_phase sb a s7"
  let ?s9 = "setCurrentStep 5 (?s8\<lparr>loadingState := (loadingState ?s8)
                                        \<lparr>installing := False, starting := True\<rparr>\<rparr>)"
  from install_phase_props [OF analyzeProject_no_pre_install [OF a], of s7 sb] inst
  have same8: "same_but_trace s7 ?s8"
    and ms8: "milestones ?s8 = milestones s7 @ spec_install_attempts sb ?cmd"
    by simp_all
  have f9: "setupError ?s9 = None" "isSetupInProgress ?s9" "currentStep ?s9 = 5"
    using same_but_trace_fields [OF same8] f7 by (simp_all add: preview_step_defs)
  have ms9: "milestones ?s9 = milestones s @ [Step 1, Step 2, Step 3, Step 4] @
                spec_install_attempts sb ?cmd @ [Step 5]"
    using ms7 ms8 by simp
  have ms: "milestones (snd (setup_body sb ?s0)) =
      milestones s @ [Step 1, Step 2, Step 3, Step 4] @ spec_install_attempts sb ?cmd @
        [Step 5, SpawnStart ''npm'' [''run'', start_script (manifest (mounted_fs sb))]]"
    and step: "currentStep (snd (setup_body sb ?s0)) = 5"
    and err: "setupError (snd (setup_body sb ?s0)) = None"
    unfolding body using start_phase_props [of sb a ?s9] start ms9 f9 by simp_all
  have out: "fst (setup_body sb ?s0) =
      (case start_spawn sb of Inl msg \<Rightarrow> Inl msg | Inr p \<Rightarrow> Inr ())"
    and prog: "isSetupInProgress (snd (setup_body sb ?s0))"
    unfolding body using start f9(2)
    by (simp_all add: start_phase_def Let_def preview_step_defs split: sum.splits prod.splits)
  have final: "setupContainer (Some sb) s =
      (case start_spawn sb of
         Inr p \<Rightarrow> snd (setup_body sb ?s0)
       | Inl msg \<Rightarrow> (writeToTerminal (MsgError msg) (snd (setup_body sb ?s0)))
                       \<lparr>setupError := Some msg, isSetupInProgress := False,
                        loadingState := idle_loading\<rparr>)"
    using assms(5,6) out
    by (cases "setup_body sb ?s0") (simp add: setupContainer_def split: sum.splits)
  show ?thesis
    unfolding final using ms step err prog
    by (simp add: preview_step_defs milestones_def split: sum.splits)
qed


lemma build_start_pkg_script: "start_script (Parsed build_start_pkg) = ''start''"
  by (simp add: start_script_def read_start_script_def choose_start_script_def bind_err_def
      build_start_pkg_def js_object_def map_get_def truthy_opt_def)

theorem install_retries_then_starts_witness:
  "milestones (setupContainer (Some failing_install_sandbox) initial_preview) =
     [Step 1, Step 2, Step 3, Step 4,
      SpawnTimed ''yarn'' [''install'', ''--non-interactive''] 120000 (Some ciEnv),
      Sleep 1000,
      SpawnTimed ''yarn'' [''install'', ''--non-interactive''] 120000 (Some ciEnv),
      Step 5, SpawnStart ''npm'' [''run'', ''start'']] \<and>
   currentStep (setupContainer (Some failing_install_sandbox) initial_preview) = 5 \<and>
   setupError (setupContainer (Some failing_install_sandbox) initial_preview) = None \<and>
   isSetupInProgress (setupContainer (Some failing_install_sandbox) initial_preview)"
proof -
  have h: "transform_result failing_install_sandbox = Inr ()"
    "mount_result failing_install_sandbox = Inr ()"
    "root_listing (mounted_fs failing_install_sandbox) = Some [''package.json'', ''yarn.lock'']"
    "''package.json'' \<in> set [''package.json'', ''yarn.lock'']"
    "\<not> isSetupComplete initial_preview" "\<not> isSetupInProgress initial_preview"
    by (simp_all add: failing_install_sandbox_def initial_preview_def)
  have cmd: "getInstallCommand (detectPackageManager [''package.json'', ''yarn.lock'']) =
      (''yarn'', [''install'', ''--non-interactive''])"
    by (simp add: detectPackageManager_def getInstallCommand_def)
  have attempts: "spec_install_attempts failing_install_sandbox cmd =
      [SpawnTimed (fst cmd) (snd cmd) 120000 (Some ciEnv), Sleep 1000,
       SpawnTimed (fst cmd) (snd cmd) 120000 (Some ciEnv)]" for cmd
    by (simp add: spec_install_attempts_def failing_install_sandbox_def)
  have rest: "manifest (mounted_fs failing_install_sandbox) = Parsed build_start_pkg"
    "start_spawn failing_install_sandbox = Inr 7" "milestones initial_preview = []"
    by (simp_all add: failing_install_sandbox_def initial_preview_def milestones_def)
  from install_retries_then_starts [OF h]
  show ?thesis
    unfolding cmd attempts rest build_start_pkg_script by simp
qed

section \<open>Properties of the terminal tabs\<close>

lemmas tabs_step_defs =
  tabs_after_def initial_tabs_def render_def addTerminal_def MAX_TERMINALS_def ref_callback_def
  get_ref_def map_get_def put_session_def new_session_def shell_connected_def shell_output_def
  handleProcessStateChange_def

lemma busy_tabs_eq:
  "tabs_after busy_tabs_ops =
     \<lparr>activeTerminal = 3, terminalIds = [1, 2, 3], nextIdRef = 4,
      terminalRefs = [(3, Some \<lparr>shellProcess = Some 42, processRunning = True\<rparr>)],
      runningProcesses = {3}, tab_events = [], renderedIds = [1, 2, 3], renderedActive = 3\<rparr>"
  by (simp add: busy_tabs_ops_def tabs_step_defs Let_def)


lemma list_all_map_set: "P (k, v) \<Longrightarrow> list_all P m \<Longrightarrow> list_all P (map_set k v m)"
  using set_map_set [of k v m] by (auto simp: list_all_iff)

lemma list_all_map_delete: "list_all P m \<Longrightarrow> list_all P (map_delete k m)"
  by (simp add: list_all_iff set_map_delete)

lemma map_get_delete [simp]: "map_get (map_delete k m) k = None"
  by (simp add: map_get_iff keys_map_delete)

lemma get_ref_ok:
  assumes "tabs_inv t" and "get_ref t i = Some se"
  shows "\<not> processRunning se \<or> shellProcess se \<noteq> None"
proof -
  from assms(2) have "map_get (terminalRefs t) i = Some (Some se)"
    by (auto simp: get_ref_def split: option.splits)
  then have "(i, Some se) \<in> set (terminalRefs t)"
    by (simp add: map_get_def map_of_SomeD)
  with assms(1) have "session_ok (i, Some se)"
    by (simp add: tabs_inv_def list_all_iff)
  then show ?thesis by (simp add: session_ok_def)
qed

lemma inv_put_session:
  "tabs_inv t \<Longrightarrow> \<not> processRunning se \<or> shellProcess se \<noteq> None \<Longrightarrow> tabs_inv (put_session i se t)"
  by (simp add: tabs_inv_def put_session_def list_all_map_set session_ok_def)

lemma inv_handle [simp]: "tabs_inv (handleProcessStateChange i b t) = tabs_inv t"
  by (simp add: tabs_inv_def handleProcessStateChange_def)

lemma inv_events [simp]: "tabs_inv (t\<lparr>tab_events := e\<rparr>) = tabs_inv t"
  by (simp add: tabs_inv_def)

lemma inv_active [simp]: "tabs_inv (t\<lparr>activeTerminal := a\<rparr>) = tabs_inv t"
  by (simp add: tabs_inv_def)

lemma inv_render [simp]: "tabs_inv (render t) = tabs_inv t"
  by (simp add: tabs_inv_def render_def)

lemma put_session_events [simp]: "put_session i se (t\<lparr>tab_events := e\<rparr>) = (put_session i se t)\<lparr>tab_events := e\<rparr>"
  by (simp add: put_session_def)

lemma inv_initial: "tabs_inv initial_tabs"
  by (simp add: tabs_inv_def initial_tabs_def)

lemma inv_addTerminal: "tabs_inv t \<Longrightarrow> tabs_inv (addTerminal t)"
  by (auto simp: tabs_inv_def addTerminal_def Let_def)

lemma inv_killProcess:
  "tabs_inv t \<Longrightarrow> tabs_inv (killProcess i se t)"
  by (auto simp: killProcess_def setProcessRunning_def inv_put_session split: option.splits)

lemma inv_closeTerminal: "tabs_inv t \<Longrightarrow> tabs_inv (closeTerminal i t)"
proof -
  assume inv: "tabs_inv t"
  let ?t1 = "case get_ref t i of None \<Rightarrow> t
             | Some se \<Rightarrow> if processRunning se then killProcess i se t else t"
  have "tabs_inv ?t1"
    using inv by (simp add: inv_killProcess split: option.splits)
  then have "tabs_inv (?t1\<lparr>terminalRefs := map_delete i (terminalRefs ?t1),
                            tab_events := tab_events ?t1 @ [RefDiscarded i],
                            runningProcesses := runningProcesses ?t1 - {i},
                            terminalIds := filter (\<lambda>tid. tid \<noteq> i) (terminalIds ?t1)\<rparr>)"
    by (auto simp: tabs_inv_def list_all_map_delete)
  with inv show ?thesis
    by (simp add: closeTerminal_def Let_def)
qed

lemma inv_apply_op: "tabs_inv t \<Longrightarrow> tabs_inv (apply_op op t)"
proof (cases op)
  case Render
  assume "tabs_inv t"
  with Render show ?thesis by simp
next
  case AddTerminal
  assume "tabs_inv t"
  with AddTerminal show ?thesis by (simp add: inv_addTerminal)
next
  case (CloseTerminal i)
  assume "tabs_inv t"
  with CloseTerminal show ?thesis by (simp add: inv_closeTerminal)
next
  case (SetActive i)
  assume "tabs_inv t"
  with SetActive show ?thesis by simp
next
  case (RefCallback i mounted)
  assume "tabs_inv t"
  then have "tabs_inv (t\<lparr>terminalRefs := map_set i None (terminalRefs t)\<rparr>)"
    by (simp add: tabs_inv_def list_all_map_set session_ok_def)
  with RefCallback \<open>tabs_inv t\<close> show ?thesis
    by (simp add: ref_callback_def inv_put_session new_session_def)
next
  case (ShellConnected i p)
  assume "tabs_inv t"
  with ShellConnected show ?thesis
    by (auto simp: shell_connected_def inv_put_session split: option.splits)
next
  case (ShellOutput i m)
  assume "tabs_inv t"
  with ShellOutput show ?thesis
    by (auto simp: shell_output_def inv_put_session split: option.splits)
next
  case (UserInput i d)
  assume "tabs_inv t"
  with UserInput show ?thesis
    by (auto simp: user_input_def inv_put_session Let_def split: option.splits)
next
  case (KillProcess i)
  assume "tabs_inv t"
  with KillProcess show ?thesis
    by (simp add: inv_killProcess split: option.splits)
qed

lemma inv_fold: "tabs_inv t \<Longrightarrow> tabs_inv (fold apply_op ops t)"
  by (induction ops arbitrary: t) (simp_all add: inv_apply_op)

lemma inv_tabs_after: "tabs_inv (tabs_after ops)"
  by (simp add: tabs_after_def inv_fold inv_initial)

lemma closeTerminal_running:
  assumes "i \<noteq> 0" and "get_ref t i = Some se" and "processRunning se"
    and "shellProcess se = Some p"
  shows "tab_events (closeTerminal i t) = tab_events t @ [ShellInput p ETX, RefDiscarded i] \<and>
         get_ref (closeTerminal i t) i = None \<and> i \<notin> set (terminalIds (closeTerminal i t))"
  using assms
  by (simp add: closeTerminal_def killProcess_def setProcessRunning_def
      handleProcessStateChange_def put_session_def get_ref_def Let_def)

text \<open>
  The terminal ids and the refs that an event leaves do not depend on what was rendered
  before it, except for the test of \<^verbatim>\<open>addTerminal\<close>.
\<close>

lemma terminalIds_apply_op:
  "terminalIds (apply_op op t) =
     (case op of
        AddTerminal \<Rightarrow>
          if length (renderedIds t) < MAX_TERMINALS then terminalIds t @ [nextIdRef t]
          else terminalIds t
      | CloseTerminal i \<Rightarrow> if i = 0 then terminalIds t else filter (\<lambda>tid. tid \<noteq> i) (terminalIds t)
      | _ \<Rightarrow> terminalIds t)"
  by (cases op)
     (auto simp: render_def addTerminal_def closeTerminal_def killProcess_def
        setProcessRunning_def handleProcessStateChange_def put_session_def ref_callback_def
        shell_connected_def shell_output_def user_input_def Let_def
        split: option.splits)

lemma cap_step: "cap_inv t \<Longrightarrow> cap_inv (render (apply_op op t))"
proof -
  assume "cap_inv t"
  then have "length (terminalIds (apply_op op t)) \<le> MAX_TERMINALS"
    unfolding terminalIds_apply_op
    by (cases op) (auto simp: cap_inv_def intro: le_trans [OF length_filter_le])
  then show ?thesis
    by (simp add: cap_inv_def render_def)
qed

lemma cap_fold: "cap_inv t \<Longrightarrow> cap_inv (fold (\<lambda>op t. render (apply_op op t)) ops t)"
  by (induction ops arbitrary: t) (simp_all add: cap_step)

lemma rendered_runs_are_runs:
  "fold (\<lambda>op t. render (apply_op op t)) ops t =
     fold apply_op (concat (map (\<lambda>op. [op, Render]) ops)) t"
  by (induction ops arbitrary: t) simp_all

text \<open>
  The cap of three terminals holds when a render follows every event, so that each call of
  \<^verbatim>\<open>addTerminal\<close> tests the length of the current list; such runs are among the runs of
  \<open>tabs_after\<close>.
\<close>

theorem terminal_cap_when_rendered:
  "length (terminalIds (tabs_after_rendered ops)) \<le> 3 \<and>
   tabs_after_rendered ops = tabs_after (concat (map (\<lambda>op. [op, Render]) ops))"
proof -
  have "cap_inv initial_tabs"
    by (simp add: cap_inv_def initial_tabs_def)
  then have "cap_inv (tabs_after_rendered ops)"
    unfolding tabs_after_rendered_def by (rule cap_fold)
  then show ?thesis
    by (simp add: cap_inv_def MAX_TERMINALS_def tabs_after_rendered_def tabs_after_def
        rendered_runs_are_runs)
qed

text \<open>
  After every sequence of events, rendered or not, the default terminal's id 0 is not among
  the terminal ids and \<^verbatim>\<open>closeTerminal(0)\<close> changes nothing. Closing another terminal whose
  session is marked running first writes the interrupt to that session's shell and only
  then discards the session's handle; the terminal is gone from the list afterwards.
\<close>

theorem terminal_close_interrupts:
  "0 \<notin> set (terminalIds (tabs_after ops)) \<and>
   closeTerminal 0 t = t \<and>
   (i \<noteq> 0 \<and> get_ref (tabs_after ops) i = Some se \<and> processRunning se \<longrightarrow>
      (\<exists>p. shellProcess se = Some p \<and>
           tab_events (closeTerminal i (tabs_after ops)) =
             tab_events (tabs_after ops) @ [ShellInput p ETX, RefDiscarded i]) \<and>
      get_ref (closeTerminal i (tabs_after ops)) i = None \<and>
      i \<notin> set (terminalIds (closeTerminal i (tabs_after ops))))"
proof -
  have inv: "tabs_inv (tabs_after ops)" by (rule inv_tabs_after)
  then have zero: "0 \<notin> set (terminalIds (tabs_after ops))"
    by (simp add: tabs_inv_def)
  have default: "closeTerminal 0 t = t"
    by (simp add: closeTerminal_def)
  have close: "(\<exists>p. shellProcess se = Some p \<and>
           tab_events (closeTerminal i (tabs_after ops)) =
             tab_events (tabs_after ops) @ [ShellInput p ETX, RefDiscarded i]) \<and>
      get_ref (closeTerminal i (tabs_after ops)) i = None \<and>
      i \<notin> set (terminalIds (closeTerminal i (tabs_after ops)))"
    if "i \<noteq> 0" and "get_ref (tabs_after ops) i = Some se" and "processRunning se"
  proof -
    from get_ref_ok [OF inv that(2)] that(3) obtain p where p: "shellProcess se = Some p"
      by auto
    from closeTerminal_running [OF that p] p show ?thesis by blast
  qed
  from zero default close show ?thesis by blast
qed

theorem terminal_close_interrupts_witness:
  "terminalIds (tabs_after busy_tabs_ops) = [1, 2, 3] \<and>
   closeTerminal 0 (tabs_after busy_tabs_ops) = tabs_after busy_tabs_ops \<and>
   get_ref (tabs_after busy_tabs_ops) 3 = Some \<lparr>shellProcess = Some 42, processRunning = True\<rparr> \<and>
   tab_events (closeTerminal 3 (tabs_after busy_tabs_ops)) = [ShellInput 42 ETX, RefDiscarded 3] \<and>
   3 \<notin> set (terminalIds (closeTerminal 3 (tabs_after busy_tabs_ops)))"
proof -
  have ids: "terminalIds (tabs_after busy_tabs_ops) = [1, 2, 3]"
    and ref: "get_ref (tabs_after busy_tabs_ops) 3 =
                Some \<lparr>shellProcess = Some 42, processRunning = True\<rparr>"
    and ev: "tab_events (tabs_after busy_tabs_ops) = []"
    by (simp_all add: busy_tabs_eq get_ref_def map_get_def)
  from terminal_close_interrupts
         [of busy_tabs_ops "tabs_after busy_tabs_ops" 3
             "\<lparr>shellProcess = Some 42, processRunning = True\<rparr>"]
       ids ref ev
  show ?thesis by auto
qed

end
